theory Spec2Isabelle
  imports Main "HOL-Library.Sublist" "HOL-Library.Option_ord"
begin

section \<open>The dashboard server (index.js)\<close>

subsection \<open>Controller state\<close>

text \<open>
  The module-level object \<open>state\<close> of the server: two ISO time strings (\<open>null\<close> is
  \<open>None\<close>), the running flag, the statistics and the activity list.
\<close>

record stats =
  totalEvents :: nat
  eventsToday :: nat
  lastBatchSize :: nat

record activity =
  timestamp :: "string option"
  type :: string
  status :: string
  details :: string

record state =
  lastRun :: "string option"
  nextRun :: "string option"
  isRunning :: bool
  stats :: stats
  recentActivity :: "activity list"

definition initial_state :: state where
  "initial_state =
     \<lparr> lastRun = None, nextRun = None, isRunning = False,
       stats = \<lparr> totalEvents = 0, eventsToday = 0, lastBatchSize = 0 \<rparr>,
       recentActivity = [] \<rparr>"

subsection \<open>The world outside the handlers\<close>

text \<open>
  A file of the \<open>logs\<close> directory either has a content or exists and cannot be read
  (\<open>readFileSync\<close> throws). The environment of one handler call gives the clock
  (\<open>Date.now()\<close>, in milliseconds), the rendering of a time value as an ISO string, the
  \<open>logs\<close> directory (\<open>None\<close> when it does not exist), the result of
  \<open>new Date(text).toISOString()\<close> on a text (\<open>None\<close> when the date is invalid and
  \<open>toISOString\<close> throws a RangeError), and whether \<open>spawn\<close> throws.
\<close>

datatype log_file = Content string | Unreadable

record env =
  now :: nat
  toISOString :: "nat \<Rightarrow> string"
  logDir :: "(string \<rightharpoonup> log_file) option"
  parseDate :: "string \<Rightarrow> string option"
  spawnThrows :: bool

text \<open>What a handler does besides changing \<open>state\<close> and answering.\<close>

datatype effect =
    ConsoleLog string
  | ConsoleError string
  | Spawn string "string list"

text \<open>The JSON values passed to \<open>res.json\<close>, and a response with its HTTP status.\<close>

datatype json =
    JNull
  | JBool bool
  | JNum nat
  | JStr string
  | JArr "json list"
  | JObj "(string \<times> json) list"

type_synonym response = "nat \<times> json"

subsection \<open>JavaScript string operations\<close>

text \<open>\<open>s.includes(pat)\<close>: \<open>pat\<close> occurs in \<open>s\<close> as a contiguous substring.\<close>

fun includes_str :: "string \<Rightarrow> string \<Rightarrow> bool" where
  "includes_str [] pat = (pat = [])"
| "includes_str (c # cs) pat = (prefix pat (c # cs) \<or> includes_str cs pat)"

text \<open>\<open>s.split(sep)\<close> for a separator of one character; the result is never empty.\<close>

fun split_str :: "char \<Rightarrow> string \<Rightarrow> string list" where
  "split_str sep [] = [[]]"
| "split_str sep (c # cs) =
     (if c = sep then [] # split_str sep cs
      else (case split_str sep cs of
              [] \<Rightarrow> [[c]]
            | l # ls \<Rightarrow> (c # l) # ls))"

definition is_digit :: "char \<Rightarrow> bool" where
  "is_digit c = (c \<in> set ''0123456789'')"

definition digit_val :: "char \<Rightarrow> nat" where
  "digit_val c = of_char c - 48"

text \<open>
  \<open>parseInt\<close> on a text of decimal digits. JavaScript numbers are doubles, which hold
  every natural number up to \<open>2 ^ 53\<close> exactly; the model computes with \<open>nat\<close>.
\<close>

definition parseInt :: "string \<Rightarrow> nat" where
  "parseInt ds = foldl (\<lambda>a c. 10 * a + digit_val c) 0 ds"

text \<open>
  \<open>line.match(/processed (\d+) events/)\<close>: the first position of the line where the
  text \<open>processed\<close>, a space, a run of at least one digit, a space and \<open>events\<close> stand;
  the result is the digits (group 1), \<open>None\<close> for \<open>null\<close>. The greedy \<open>\d+\<close> takes the
  whole run of digits: with fewer digits the next character would be a digit, not the
  space.
\<close>

definition match_processed_at :: "string \<Rightarrow> string option" where
  "match_processed_at s =
     (if prefix ''processed '' s then
        (let r = drop 10 s; ds = takeWhile is_digit r; rest = dropWhile is_digit r
         in if ds \<noteq> [] \<and> prefix '' events'' rest then Some ds else None)
      else None)"

fun match_processed :: "string \<Rightarrow> string option" where
  "match_processed [] = None"
| "match_processed (c # cs) =
     (case match_processed_at (c # cs) of
        Some ds \<Rightarrow> Some ds
      | None \<Rightarrow> match_processed cs)"

text \<open>
  \<open>line.match(/^(\d{4}-\d{2}-\d{2} \d{2}:\d{2}:\d{2})/)?.[1]\<close>: the first 19 characters
  when they have the shape of a date and a time.
\<close>

definition timestamp_pattern :: string where
  "timestamp_pattern = ''dddd-dd-dd dd:dd:dd''"

definition match_timestamp :: "string \<Rightarrow> string option" where
  "match_timestamp line =
     (let t = take 19 line
      in if length t = 19 \<and>
            list_all (\<lambda>(p, c). if p = CHR ''d'' then is_digit c else c = p)
              (zip timestamp_pattern t)
         then Some t else None)"

text \<open>
  A template literal renders the exit code: a number in decimal, or \<open>null\<close> when the
  worker was ended by a signal.
\<close>

function show_nat :: "nat \<Rightarrow> string" where
  "show_nat n =
     (if n < 10 then [char_of (48 + n)]
      else show_nat (n div 10) @ [char_of (48 + n mod 10)])"
  by pat_completeness auto
termination
  by (relation "measure id") auto

definition show_code :: "int option \<Rightarrow> string" where
  "show_code code =
     (case code of
        None \<Rightarrow> ''null''
      | Some i \<Rightarrow> (if i < 0 then ''-'' @ show_nat (nat (- i)) else show_nat (nat i)))"

subsection \<open>updateStatsFromLogs\<close>

text \<open>\<open>new Date().toISOString().split('T')[0]\<close>\<close>

definition today :: "env \<Rightarrow> string" where
  "today e =
     (case split_str (CHR ''T'') (toISOString e (now e)) of
        [] \<Rightarrow> []
      | d # _ \<Rightarrow> d)"

definition logFile :: "string \<Rightarrow> string" where
  "logFile day = ''boxchronicle_'' @ day @ ''.log''"

text \<open>The term a reducer adds for one line: \<open>match ? parseInt(match[1]) : 0\<close>.\<close>

definition event_count :: "string \<Rightarrow> nat" where
  "event_count line =
     (case match_processed line of
        Some ds \<Rightarrow> parseInt ds
      | None \<Rightarrow> 0)"

text \<open>\<open>ls.reduce((sum, line) => sum + ..., 0)\<close>\<close>

definition sum_events :: "string list \<Rightarrow> nat" where
  "sum_events ls = foldl (\<lambda>sum line. sum + event_count line) 0 ls"

text \<open>\<open>xs.slice(-10)\<close>\<close>

definition slice_last10 :: "'a list \<Rightarrow> 'a list" where
  "slice_last10 xs = drop (length xs - 10) xs"

text \<open>
  The callback of \<open>map\<close> over the last event lines. A timestamp that matched is a text
  of 19 characters, hence truthy, and goes through \<open>new Date(...).toISOString()\<close>, which
  throws on an invalid date: the result is \<open>None\<close> then. Without a count the template
  literal renders \<open>undefined\<close>.
\<close>

definition activity_of :: "env \<Rightarrow> string \<Rightarrow> activity option" where
  "activity_of e line =
     (let eventCount = (case match_processed line of Some ds \<Rightarrow> ds | None \<Rightarrow> ''undefined'');
          entry = (\<lambda>t. \<lparr> timestamp = t, type = ''Event Processing'', status = ''SUCCESS'',
                          details = ''Processed '' @ eventCount @ '' events'' \<rparr>)
      in case match_timestamp line of
           None \<Rightarrow> Some (entry None)
         | Some t \<Rightarrow>
             (case parseDate e t of
                None \<Rightarrow> None
              | Some d \<Rightarrow> Some (entry (Some d))))"

text \<open>\<open>xs.map(f)\<close> for a callback that may throw: \<open>None\<close> when a call throws.\<close>

fun map_throwing :: "('a \<Rightarrow> 'b option) \<Rightarrow> 'a list \<Rightarrow> 'b list option" where
  "map_throwing f [] = Some []"
| "map_throwing f (x # xs) =
     (case f x of
        None \<Rightarrow> None
      | Some y \<Rightarrow>
          (case map_throwing f xs of
             None \<Rightarrow> None
           | Some ys \<Rightarrow> Some (y # ys)))"

text \<open>The test of \<open>filter(activity => activity.timestamp)\<close>: neither null nor empty.\<close>

definition truthy :: "string option \<Rightarrow> bool" where
  "truthy t = (case t of None \<Rightarrow> False | Some v \<Rightarrow> v \<noteq> [])"

text \<open>
  \<open>logContent.split('\n')\<close> and the filter on \<open>Successfully processed\<close>: the event
  lines of a log.
\<close>

definition event_lines :: "string \<Rightarrow> string list" where
  "event_lines logContent =
     (let lines = split_str (CHR 0x0A) logContent
      in filter (\<lambda>line. includes_str line ''Successfully processed'') lines)"

text \<open>
  The function returns the new state and what it wrote to the console. Every
  exception lands in the \<open>catch\<close>, which writes to the console; the assignments made
  before the exception stay.
\<close>

definition updateStatsFromLogs :: "env \<Rightarrow> state \<Rightarrow> state \<times> effect list" where
  "updateStatsFromLogs e s =
     (case logDir e of
        None \<Rightarrow> (s, [])
      | Some dir \<Rightarrow>
          (case dir (logFile (today e)) of
             None \<Rightarrow> (s, [])
           | Some Unreadable \<Rightarrow> (s, [ConsoleError ''Error updating stats:''])
           | Some (Content logContent) \<Rightarrow>
               (let eventLines = event_lines logContent;
                    s1 = s\<lparr>stats := (stats s)\<lparr>totalEvents := sum_events eventLines\<rparr>\<rparr>;
                    todayLines = filter (\<lambda>line. includes_str line (today e)) eventLines;
                    s2 = s1\<lparr>stats := (stats s1)\<lparr>eventsToday := sum_events todayLines\<rparr>\<rparr>;
                    s3 = (if eventLines \<noteq> [] \<and> last eventLines \<noteq> []
                          then s2\<lparr>stats := (stats s2)\<lparr>lastBatchSize := event_count (last eventLines)\<rparr>\<rparr>
                          else s2)
                in case map_throwing (activity_of e) (slice_last10 eventLines) of
                     None \<Rightarrow> (s3, [ConsoleError ''Error updating stats:''])
                   | Some acts \<Rightarrow>
                       (s3\<lparr>recentActivity := filter (\<lambda>a. truthy (timestamp a)) acts\<rparr>, []))))"

subsection \<open>The endpoints and the worker's events\<close>

definition json_opt :: "string option \<Rightarrow> json" where
  "json_opt t = (case t of None \<Rightarrow> JNull | Some v \<Rightarrow> JStr v)"

definition json_stats :: "stats \<Rightarrow> json" where
  "json_stats st =
     JObj [(''totalEvents'', JNum (totalEvents st)),
           (''eventsToday'', JNum (eventsToday st)),
           (''lastBatchSize'', JNum (lastBatchSize st))]"

definition json_activity :: "activity \<Rightarrow> json" where
  "json_activity a =
     JObj [(''timestamp'', json_opt (timestamp a)),
           (''type'', JStr (type a)),
           (''status'', JStr (status a)),
           (''details'', JStr (details a))]"

text \<open>\<open>app.get('/api/status')\<close>\<close>

definition get_status :: "env \<Rightarrow> state \<Rightarrow> response \<times> state \<times> effect list" where
  "get_status e s =
     (let (s', fx) = updateStatsFromLogs e s
      in ((200,
           JObj [(''status'', JStr (if isRunning s' then ''ACTIVE'' else ''IDLE'')),
                 (''lastRun'', json_opt (lastRun s')),
                 (''nextRun'', json_opt (nextRun s')),
                 (''isRunning'', JBool (isRunning s')),
                 (''stats'', json_stats (stats s')),
                 (''recentActivity'', JArr (map json_activity (recentActivity s')))]),
          s', fx))"

definition message :: "nat \<Rightarrow> bool \<Rightarrow> string \<Rightarrow> response" where
  "message code ok text = (code, JObj [(''success'', JBool ok), (''message'', JStr text)])"

text \<open>
  \<open>app.post('/api/run')\<close>: the guard, then the flag and \<open>lastRun\<close>, then \<open>spawn\<close>; the
  \<open>catch\<close> clears the flag and answers 500.
\<close>

definition post_run :: "env \<Rightarrow> state \<Rightarrow> response \<times> state \<times> effect list" where
  "post_run e s =
     (if isRunning s then (message 400 False ''Integration is already running'', s, [])
      else
        (let s1 = s\<lparr>isRunning := True\<rparr>;
             s2 = s1\<lparr>lastRun := Some (toISOString e (now e))\<rparr>
         in if spawnThrows e
            then (message 500 False ''Failed to start integration'',
                  s2\<lparr>isRunning := False\<rparr>,
                  [ConsoleError ''Error starting integration:''])
            else (message 200 True ''Integration started'', s2,
                  [Spawn ''python'' [''main.py'']])))"

text \<open>The listeners on the worker's output streams and on its \<open>close\<close> event.\<close>

definition on_stdout :: "string \<Rightarrow> state \<Rightarrow> state \<times> effect list" where
  "on_stdout data s = (s, [ConsoleLog (''Python stdout: '' @ data)])"

definition on_stderr :: "string \<Rightarrow> state \<Rightarrow> state \<times> effect list" where
  "on_stderr data s = (s, [ConsoleError (''Python stderr: '' @ data)])"

definition on_close :: "env \<Rightarrow> int option \<Rightarrow> state \<Rightarrow> state \<times> effect list" where
  "on_close e code s =
     (let s1 = s\<lparr>isRunning := False\<rparr>;
          s2 = s1\<lparr>nextRun := Some (toISOString e (now e + 5 * 60 * 1000))\<rparr>
      in (s2, [ConsoleLog (''Python process exited with code '' @ show_code code)]))"

text \<open>
  The server handles one event at a time, each handler to its end: a request, or an
  event of the worker. Only a request has a response. The worker's \<open>error\<close> event
  reports a fault that \<open>spawn\<close> did not throw, such as a \<open>python\<close> that is not
  found: it arrives after the handler of the run request has answered.
\<close>

datatype event =
    GetStatus
  | PostRun
  | Stdout string
  | Stderr string
  | Close "int option"
  | ChildError string

text \<open>
  The server registers listeners for the worker's output and for \<open>close\<close>, none for
  \<open>error\<close>. An \<open>error\<close> event without a listener is thrown as an exception that
  nothing catches, and the server process ends: the result is \<open>None\<close>.
\<close>

fun handle ::
  "env \<Rightarrow> event \<Rightarrow> state \<Rightarrow> (response option \<times> state \<times> effect list) option" where
  "handle e GetStatus s = (let (r, s', fx) = get_status e s in Some (Some r, s', fx))"
| "handle e PostRun s = (let (r, s', fx) = post_run e s in Some (Some r, s', fx))"
| "handle e (Stdout data) s = (let (s', fx) = on_stdout data s in Some (None, s', fx))"
| "handle e (Stderr data) s = (let (s', fx) = on_stderr data s in Some (None, s', fx))"
| "handle e (Close code) s = (let (s', fx) = on_close e code s in Some (None, s', fx))"
| "handle e (ChildError err) s = None"

text \<open>
  The server after a run: up with its state, or down, ended by an uncaught exception,
  with the state it had at that moment.
\<close>

datatype server = Up state | Down state

text \<open>
  A run of the server: the responses sent, in order, and the server afterwards. A
  server that is down handles no further event.
\<close>

fun serve :: "(env \<times> event) list \<Rightarrow> state \<Rightarrow> response list \<times> server" where
  "serve [] s = ([], Up s)"
| "serve ((e, ev) # rest) s =
     (case handle e ev s of
        None \<Rightarrow> ([], Down s)
      | Some (r, s', fx) \<Rightarrow>
          (let (rs, sv) = serve rest s'
           in ((case r of None \<Rightarrow> rs | Some x \<Rightarrow> x # rs), sv)))"

subsection \<open>Sample inputs\<close>

text \<open>
  A log of the second of January with two event lines and one error line, an
  environment whose \<open>logs\<close> directory holds it as today's file, the same environment
  on a fresh install (no \<open>logs\<close> directory), and a state with a cycle in progress.
  The clock of the environment stands at 03:04:05 UTC of that day and renders this
  moment and the moment five minutes later; the server's time zone is UTC, so a
  timestamp of the log is rendered with a \<open>T\<close> and the suffix \<open>.000Z\<close>, and the
  text with month 13 and day 45 is an invalid date.
\<close>

definition sample_log :: string where
  "sample_log =
     ''2024-01-02 03:00:00 - INFO - Successfully processed 5 events'' @ [CHR 0x0A] @
     ''2024-01-01 23:59:59 - INFO - Successfully processed 12 events'' @ [CHR 0x0A] @
     ''2024-01-02 03:00:01 - ERROR - Chronicle returned 500'' @ [CHR 0x0A]"

definition sample_clock :: "nat \<Rightarrow> string" where
  "sample_clock t =
     (if t = 1704164645000 then ''2024-01-02T03:04:05.000Z''
      else if t = 1704164945000 then ''2024-01-02T03:09:05.000Z''
      else ''1970-01-01T00:00:00.000Z'')"

definition sample_parseDate :: "string \<Rightarrow> string option" where
  "sample_parseDate t =
     (if t = ''2024-13-45 99:99:99'' then None
      else Some (take 10 t @ ''T'' @ drop 11 t @ ''.000Z''))"

definition sample_env :: env where
  "sample_env =
     \<lparr> now = 1704164645000,
       toISOString = sample_clock,
       logDir = Some [''boxchronicle_2024-01-02.log'' \<mapsto> Content sample_log],
       parseDate = sample_parseDate,
       spawnThrows = False \<rparr>"

text \<open>
  The same environment after today's log was replaced by a log whose only event line
  carries a month 13: the text has the shape of a timestamp and is no valid date.
\<close>

definition stale_log :: string where
  "stale_log =
     ''2024-13-45 99:99:99 - INFO - Successfully processed 9 events'' @ [CHR 0x0A]"

definition stale_env :: env where
  "stale_env = sample_env\<lparr>logDir := Some [''boxchronicle_2024-01-02.log'' \<mapsto> Content stale_log]\<rparr>"

definition fresh_env :: env where
  "fresh_env = sample_env\<lparr>logDir := None\<rparr>"

definition running_state :: state where
  "running_state = initial_state\<lparr>isRunning := True\<rparr>"

subsection \<open>Vocabulary of the properties\<close>

text \<open>
  A run of the server with the worker's failures taken out: what it wrote to stderr
  is dropped, and every exit code is replaced by 0.
\<close>

fun without_errors :: "(env \<times> event) list \<Rightarrow> (env \<times> event) list" where
  "without_errors [] = []"
| "without_errors ((e, Stderr d) # rest) = without_errors rest"
| "without_errors ((e, Close c) # rest) = (e, Close (Some 0)) # without_errors rest"
| "without_errors (x # rest) = x # without_errors rest"

text \<open>
  Two runs on the sample environment: a cycle whose worker writes an error and exits
  with code 1, and a cycle whose worker exits with code 0; each is followed by a
  status query.
\<close>

definition failed_run :: "(env \<times> event) list" where
  "failed_run =
     [(sample_env, PostRun),
      (sample_env, Stderr ''Traceback (most recent call last): delivery failed''),
      (sample_env, Close (Some 1)),
      (sample_env, GetStatus)]"

definition clean_run :: "(env \<times> event) list" where
  "clean_run =
     [(sample_env, PostRun),
      (sample_env, Close (Some 0)),
      (sample_env, GetStatus)]"

text \<open>
  A run on the sample environment in which the worker cannot be started and the fault
  is reported by the \<open>error\<close> event.
\<close>

definition start_fault_run :: "(env \<times> event) list" where
  "start_fault_run =
     [(sample_env, PostRun),
      (sample_env, ChildError ''spawn python ENOENT'')]"

text \<open>
  The log that a call of \<open>updateStatsFromLogs\<close> reads: the content of today's file, if
  the \<open>logs\<close> directory exists and holds a readable file for today.
\<close>

definition todays_log :: "env \<Rightarrow> string option" where
  "todays_log e =
     (case logDir e of
        None \<Rightarrow> None
      | Some dir \<Rightarrow>
          (case dir (logFile (today e)) of
             Some (Content c) \<Rightarrow> Some c
           | _ \<Rightarrow> None))"

text \<open>
  The range in which the numbers of JavaScript are exact: the statistics of a state,
  and the counts of the log that a call reads.
\<close>

definition stats_exact :: "stats \<Rightarrow> bool" where
  "stats_exact st =
     (totalEvents st \<le> 2 ^ 53 \<and> eventsToday st \<le> 2 ^ 53 \<and> lastBatchSize st \<le> 2 ^ 53)"

definition counts_exact :: "env \<Rightarrow> bool" where
  "counts_exact e =
     (case todays_log e of
        None \<Rightarrow> True
      | Some c \<Rightarrow> sum_events (event_lines c) \<le> 2 ^ 53)"

text \<open>
  Every text with the shape of a timestamp at the start of one of the last 10 event
  lines of a log is a valid date.
\<close>

definition dates_valid :: "env \<Rightarrow> string \<Rightarrow> bool" where
  "dates_valid e c =
     list_all (\<lambda>l. case match_timestamp l of
                     None \<Rightarrow> True
                   | Some t \<Rightarrow> parseDate e t \<noteq> None)
       (slice_last10 (event_lines c))"

text \<open>
  The entries drawn from a log: in order, one for each of its last 10 event lines
  that begins with a timestamp, with the ISO form of the timestamp and the count of
  the line as it is written there.
\<close>

definition log_entries :: "env \<Rightarrow> string \<Rightarrow> activity list" where
  "log_entries e c =
     concat (map (\<lambda>l. case match_timestamp l of
                           None \<Rightarrow> []
                         | Some t \<Rightarrow>
                             (case parseDate e t of
                                None \<Rightarrow> []
                              | Some d \<Rightarrow>
                                  if d = [] then []
                                  else [\<lparr> timestamp = Some d,
                                          type = ''Event Processing'',
                                          status = ''SUCCESS'',
                                          details = ''Processed '' @
                                            (case match_processed l of
                                               None \<Rightarrow> ''undefined''
                                             | Some ds \<Rightarrow> ds) @ '' events'' \<rparr>]))
              (slice_last10 (event_lines c)))"

text \<open>
  The shape of a timestamp, character by character: four digits, a hyphen, two
  digits, a hyphen, two digits, a space, and two digits three times with colons
  between.
\<close>

definition is_timestamp :: "string \<Rightarrow> bool" where
  "is_timestamp t =
     (case t of
        [y1, y2, y3, y4, h1, m1, m2, h2, d1, d2, sp, hh1, hh2, c1, mm1, mm2, c2, s1, s2] \<Rightarrow>
          list_all is_digit [y1, y2, y3, y4, m1, m2, d1, d2, hh1, hh2, mm1, mm2, s1, s2] \<and>
          h1 = CHR ''-'' \<and> h2 = CHR ''-'' \<and> sp = CHR '' '' \<and>
          c1 = CHR '':'' \<and> c2 = CHR '':''
      | _ \<Rightarrow> False)"

text \<open>What every entry of the activity list looks like, and the bound on the list.\<close>

definition activity_ok :: "activity \<Rightarrow> bool" where
  "activity_ok a =
     (status a = ''SUCCESS'' \<and> type a = ''Event Processing'' \<and> timestamp a \<noteq> None)"

definition activity_inv :: "state \<Rightarrow> bool" where
  "activity_inv s = (length (recentActivity s) \<le> 10 \<and> list_all activity_ok (recentActivity s))"

section \<open>The forwarding cycle of the worker (main.py)\<close>

text \<open>
  The server starts the worker with \<open>spawn('python', ['main.py'])\<close>. The worker's
  source, which holds the cursor, the fetch and the delivery of one forwarding cycle,
  is not among the files of the dashboard; the definitions of this section follow the
  specification of the cycle. Waiting times (backoff delays, the cycle timeout) and
  cancellation are not part of the model.
\<close>

text \<open>
  Modelled from the spec: the cursor of main.py, an opaque and totally ordered token
  (a timestamp or a sequence marker). The absent cursor is \<open>None\<close>, below every cursor.
\<close>

type_synonym cursor = nat

text \<open>
  Modelled from the spec: the RawEvent of main.py, one upstream event as fetched, with
  its upstream identifier and its position in the stream.
\<close>

record raw_event =
  event_id :: string
  event_cursor :: cursor

text \<open>
  Modelled from the spec: the NormalizedEvent of main.py, in the schema of the sink
  (event type, timestamp, payload).
\<close>

record normalized_event =
  event_type :: string
  event_time :: cursor
  payload :: string

text \<open>
  Modelled from the spec: the Batch of main.py, a contiguous slice of the raw events of
  one fetched page; it is normalized when it is delivered.
\<close>

type_synonym batch = "raw_event list"

text \<open>
  Modelled from the spec: the result of \<open>fetch(after, limit)\<close> of main.py's Event Source
  Client: the events, the next cursor and \<open>hasMore\<close>, or a fatal fetch error (retryable
  errors are retried inside the client).
\<close>

datatype fetch_result = Page "raw_event list" cursor bool | FatalFetchError

text \<open>
  Modelled from the spec: the DeliveryOutcome of main.py's Event Sink Client.
\<close>

datatype delivery_outcome = Delivered | PartiallyDelivered "nat list" | Rejected string

text \<open>
  Modelled from the spec: one delivery attempt of main.py, which ends in an outcome or
  in a transient error (a timeout, a 5xx, a rate limit) that the controller retries.
\<close>

datatype attempt = Outcome delivery_outcome | TransientError

text \<open>
  Modelled from the spec: the configuration of main.py's cycle: the limit passed to
  \<open>fetch\<close>, the batch size limit, the maximal number of pages per cycle and the maximal
  number of delivery attempts.
\<close>

record cycle_config =
  fetch_limit :: nat
  batch_limit :: nat
  max_pages :: nat
  max_attempts :: nat

text \<open>
  Modelled from the spec: the collaborators of main.py's controller in one cycle: the
  source, the normalization, the sink (given the batch and the number of the attempt),
  and whether the Position Store fails to load or to save in this cycle.
\<close>

record collaborators =
  source :: "cursor option \<Rightarrow> nat \<Rightarrow> fetch_result"
  normalize :: "raw_event \<Rightarrow> normalized_event"
  sink :: "normalized_event list \<Rightarrow> nat \<Rightarrow> attempt"
  load_fails :: bool
  save_fails :: bool

text \<open>
  Modelled from the spec: the per-batch error descriptor of main.py's CycleReport.
\<close>

datatype batch_error =
    PartialDelivery "nat list"
  | RejectedDelivery string
  | RetriesExhausted

text \<open>
  Modelled from the spec: how a cycle of main.py ends: done, delivered but the new
  position not confirmed persisted, or failed (fatal fetch error, store unavailable).
\<close>

datatype cycle_status = Done | DeliveredNotPersisted | Failed string

text \<open>
  Modelled from the spec: the CycleReport of main.py, without the start and end times.
\<close>

record cycle_report =
  events_fetched :: nat
  events_delivered :: nat
  events_failed :: nat
  final_cursor :: "cursor option"
  batch_errors :: "(nat \<times> batch_error) list"
  cycle_status :: cycle_status

text \<open>
  Modelled from the spec: the Fetching state of main.py's controller. While the source
  says \<open>hasMore\<close>, the next page is fetched from the returned cursor, up to the
  configured number of pages; a fatal fetch error aborts (\<open>None\<close>).
\<close>

fun fetch_pages ::
  "(cursor option \<Rightarrow> nat \<Rightarrow> fetch_result) \<Rightarrow> nat \<Rightarrow> nat \<Rightarrow> cursor option \<Rightarrow>
   raw_event list list option" where
  "fetch_pages src lim 0 after = Some []"
| "fetch_pages src lim (Suc n) after =
     (case src after lim of
        FatalFetchError \<Rightarrow> None
      | Page evs next hasMore \<Rightarrow>
          (if hasMore then
             (case fetch_pages src lim n (Some next) of
                None \<Rightarrow> None
              | Some ps \<Rightarrow> Some (evs # ps))
           else Some [evs]))"

text \<open>
  Modelled from the spec: the cutting of one page of main.py into batches of at most
  the batch limit, in order (a limit of 0 is read as 1).
\<close>

function chunk :: "nat \<Rightarrow> 'a list \<Rightarrow> 'a list list" where
  "chunk n xs =
     (if xs = [] then []
      else take (max 1 n) xs # chunk n (drop (max 1 n) xs))"
  by pat_completeness auto
termination
  by (relation "measure (\<lambda>(n, xs). length xs)") auto

declare chunk.simps [simp del]

text \<open>
  Modelled from the spec: the retry loop of main.py's controller around the sink. A
  transient error is retried until the attempts are used up (\<open>None\<close>: the batch is
  marked failed); any outcome of the sink ends the loop.
\<close>

fun deliver_with_retry ::
  "(normalized_event list \<Rightarrow> nat \<Rightarrow> attempt) \<Rightarrow> normalized_event list \<Rightarrow> nat \<Rightarrow> nat \<Rightarrow>
   delivery_outcome option" where
  "deliver_with_retry snk b 0 k = None"
| "deliver_with_retry snk b (Suc n) k =
     (case snk b k of
        Outcome out \<Rightarrow> Some out
      | TransientError \<Rightarrow> deliver_with_retry snk b n (Suc k))"

text \<open>
  Modelled from the spec: the delivery of one batch by main.py's controller: normalize,
  then deliver with retries, the attempts numbered from 1.
\<close>

definition deliver :: "cycle_config \<Rightarrow> collaborators \<Rightarrow> batch \<Rightarrow> delivery_outcome option" where
  "deliver cfg env b =
     deliver_with_retry (sink env) (map (normalize env) b) (max_attempts cfg) 1"

text \<open>
  Modelled from the spec: the bookkeeping of main.py's Delivering state: whether every
  batch so far was delivered, the cursor of the last contiguous delivered batch, the
  counts and the per-batch errors.
\<close>

record progress =
  contiguous :: bool
  confirmed :: "cursor option"
  delivered :: nat
  failed :: nat
  errors :: "(nat \<times> batch_error) list"

text \<open>
  Modelled from the spec: the start of the bookkeeping of main.py's Delivering state.
\<close>

definition initial_progress :: progress where
  "initial_progress =
     \<lparr> contiguous = True, confirmed = None, delivered = 0, failed = 0, errors = [] \<rparr>"

text \<open>
  Modelled from the spec: the end cursor of a batch of main.py, the cursor of its last
  event.
\<close>

definition batch_end :: "batch \<Rightarrow> cursor option" where
  "batch_end b = (case b of [] \<Rightarrow> None | _ \<Rightarrow> Some (event_cursor (last b)))"

text \<open>
  Modelled from the spec: the bookkeeping of main.py for one batch. A delivered batch
  moves the confirmed cursor to its end only while no earlier batch has failed; a
  partial delivery, a rejection and exhausted retries are recorded as errors of the
  batch and end the contiguous run, and the cycle goes on.
\<close>

definition record_batch ::
  "nat \<Rightarrow> batch \<Rightarrow> delivery_outcome option \<Rightarrow> progress \<Rightarrow> progress" where
  "record_batch i b out p =
     (case out of
        Some Delivered \<Rightarrow>
          p\<lparr> confirmed := (if contiguous p \<and> b \<noteq> [] then batch_end b else confirmed p),
             delivered := delivered p + length b \<rparr>
      | Some (PartiallyDelivered idx) \<Rightarrow>
          p\<lparr> contiguous := False,
             delivered := delivered p + (length b - length idx),
             failed := failed p + length idx,
             errors := errors p @ [(i, PartialDelivery idx)] \<rparr>
      | Some (Rejected reason) \<Rightarrow>
          p\<lparr> contiguous := False,
             failed := failed p + length b,
             errors := errors p @ [(i, RejectedDelivery reason)] \<rparr>
      | None \<Rightarrow>
          p\<lparr> contiguous := False,
             failed := failed p + length b,
             errors := errors p @ [(i, RetriesExhausted)] \<rparr>)"

text \<open>
  Modelled from the spec: the Delivering state of main.py's controller, one batch
  after the other.
\<close>

fun deliver_batches ::
  "cycle_config \<Rightarrow> collaborators \<Rightarrow> nat \<Rightarrow> batch list \<Rightarrow> progress \<Rightarrow> progress" where
  "deliver_batches cfg env i [] p = p"
| "deliver_batches cfg env i (b # bs) p =
     deliver_batches cfg env (Suc i) bs (record_batch i b (deliver cfg env b) p)"

text \<open>
  Modelled from the spec: the batches of one cycle of main.py: the pages fetched from
  the loaded cursor, each cut into batches.
\<close>

definition cycle_batches ::
  "cycle_config \<Rightarrow> collaborators \<Rightarrow> cursor option \<Rightarrow> batch list option" where
  "cycle_batches cfg env after =
     (case fetch_pages (source env) (fetch_limit cfg) (max_pages cfg) after of
        None \<Rightarrow> None
      | Some pages \<Rightarrow> Some (concat (map (chunk (batch_limit cfg)) pages)))"

text \<open>
  Modelled from the spec: \<open>runCycle\<close> of main.py's Forwarding Cycle Controller, from the
  stored position to the report and the position stored afterwards. A failing load
  and a fatal fetch error abort without advancing; otherwise the batches are
  delivered and the confirmed cursor is saved; a failing save leaves the stored
  position and is reported as delivered, not confirmed persisted.
\<close>

definition runCycle ::
  "cycle_config \<Rightarrow> collaborators \<Rightarrow> cursor option \<Rightarrow> cycle_report \<times> cursor option" where
  "runCycle cfg env stored =
     (if load_fails env then
        (\<lparr> events_fetched = 0, events_delivered = 0, events_failed = 0, final_cursor = None,
            batch_errors = [], cycle_status = Failed ''PositionStoreError'' \<rparr>, stored)
      else
        (case cycle_batches cfg env stored of
           None \<Rightarrow>
             (\<lparr> events_fetched = 0, events_delivered = 0, events_failed = 0,
                 final_cursor = stored, batch_errors = [],
                 cycle_status = Failed ''FatalFetchError'' \<rparr>, stored)
         | Some batches \<Rightarrow>
             (let p = deliver_batches cfg env 0 batches initial_progress;
                  report = (\<lambda>c st. \<lparr> events_fetched = length (concat batches),
                                       events_delivered = delivered p,
                                       events_failed = failed p,
                                       final_cursor = c,
                                       batch_errors = errors p,
                                       cycle_status = st \<rparr>)
              in case confirmed p of
                   None \<Rightarrow> (report stored Done, stored)
                 | Some c \<Rightarrow>
                     (if save_fails env then (report stored DeliveredNotPersisted, stored)
                      else (report (Some c) Done, Some c)))))"

text \<open>
  Modelled from the spec: a sequence of cycles of main.py, each with its own
  collaborators; the result is the position stored after each cycle.
\<close>

fun run_cycles ::
  "cycle_config \<Rightarrow> collaborators list \<Rightarrow> cursor option \<Rightarrow> cursor option list" where
  "run_cycles cfg [] stored = []"
| "run_cycles cfg (env # envs) stored =
     (let stored' = snd (runCycle cfg env stored)
      in stored' # run_cycles cfg envs stored')"

text \<open>
  Modelled from the spec: the contract of main.py's Event Source Client. The events
  of a page come in strictly increasing cursor order and after the cursor given; the
  next cursor is not below the cursor of any returned event, nor below the cursor
  given.
\<close>

definition source_contract :: "(cursor option \<Rightarrow> nat \<Rightarrow> fetch_result) \<Rightarrow> bool" where
  "source_contract src =
     (\<forall>after lim.
        (case src after lim of
           FatalFetchError \<Rightarrow> True
         | Page evs next hasMore \<Rightarrow>
             sorted_wrt (<) (map event_cursor evs) \<and>
             (\<forall>ev \<in> set evs. after < Some (event_cursor ev) \<and> event_cursor ev \<le> next) \<and>
             after \<le> Some next))"

subsection \<open>Sample cycle\<close>

text \<open>
  Four events at the cursors 10, 20, 30 and 40, fetched in one page from the absent
  cursor and cut into two batches of two. The sink accepts the first batch at the
  second attempt and rejects the second batch.
\<close>

definition sample_event :: "nat \<Rightarrow> raw_event" where
  "sample_event n = \<lparr> event_id = ''event'', event_cursor = n \<rparr>"

definition sample_config :: cycle_config where
  "sample_config = \<lparr> fetch_limit = 10, batch_limit = 2, max_pages = 3, max_attempts = 2 \<rparr>"

definition sample_collaborators :: collaborators where
  "sample_collaborators =
     \<lparr> source = (\<lambda>after lim.
                   case after of
                     None \<Rightarrow> Page [sample_event 10, sample_event 20, sample_event 30, sample_event 40] 40 False
                   | Some a \<Rightarrow> Page [] a False),
       normalize = (\<lambda>ev. \<lparr> event_type = ''box'', event_time = event_cursor ev,
                              payload = event_id ev \<rparr>),
       sink = (\<lambda>b k.
                 if map event_time b = [10, 20]
                 then (if k = 1 then TransientError else Outcome Delivered)
                 else Outcome (Rejected ''malformed payload'')),
       load_fails = False,
       save_fails = False \<rparr>"

section \<open>Properties of the dashboard server\<close>

text \<open>
  Claim C1. A run request that arrives while a cycle is in progress (the flag
  \<open>isRunning\<close> is set) is answered with the rejection (HTTP 400, ``Integration is
  already running''), leaves the state as it is and has no effect: no worker is
  spawned. Nothing is kept for later: whatever follows, the server answers and ends
  as it would without the request.
\<close>

theorem run_while_running_rejected:
  assumes "isRunning s"
  shows "post_run e s = (message 400 False ''Integration is already running'', s, []) \<and>
         serve ((e, PostRun) # tr) s =
           (message 400 False ''Integration is already running'' # fst (serve tr s),
            snd (serve tr s))"
  using assms by (simp add: post_run_def split_beta)

theorem run_while_running_rejected_witness:
  "isRunning running_state \<and>
   post_run sample_env running_state =
     ((400, JObj [(''success'', JBool False),
                  (''message'', JStr ''Integration is already running'')]),
      running_state, [])"
  using run_while_running_rejected [of running_state sample_env "[]"]
  by (simp add: running_state_def message_def)

text \<open>
  Claim C10. When the \<open>logs\<close> directory does not exist, or today's log file does not
  exist in it, \<open>updateStatsFromLogs\<close> returns the state it was given and writes
  nothing; so the status query on the initial state reports the zero statistics and
  an empty activity list.
\<close>

theorem no_log_no_change:
  assumes "logDir e = None \<or> (\<exists>dir. logDir e = Some dir \<and> dir (logFile (today e)) = None)"
  shows "updateStatsFromLogs e s = (s, []) \<and>
         get_status e initial_state =
           ((200, JObj [(''status'', JStr ''IDLE''), (''lastRun'', JNull), (''nextRun'', JNull),
                        (''isRunning'', JBool False),
                        (''stats'', JObj [(''totalEvents'', JNum 0), (''eventsToday'', JNum 0),
                                          (''lastBatchSize'', JNum 0)]),
                        (''recentActivity'', JArr [])]),
            initial_state, [])"
proof -
  have u: "updateStatsFromLogs e s = (s, [])" for s
    using assms by (auto simp: updateStatsFromLogs_def)
  show ?thesis
    by (simp add: u get_status_def initial_state_def json_opt_def json_stats_def)
qed

theorem no_log_no_change_witness:
  "logDir fresh_env = None \<and>
   updateStatsFromLogs fresh_env running_state = (running_state, [])"
  using no_log_no_change [of fresh_env running_state]
  by (simp add: fresh_env_def)

subsection \<open>The sample logs, evaluated\<close>

lemma event_lines_sample_log:
  "event_lines sample_log =
     [''2024-01-02 03:00:00 - INFO - Successfully processed 5 events'',
      ''2024-01-01 23:59:59 - INFO - Successfully processed 12 events'']"
  by (simp add: event_lines_def sample_log_def)

lemma today_sample_env: "today sample_env = ''2024-01-02''"
  by (simp add: today_def sample_env_def sample_clock_def)

lemma update_sample:
  "updateStatsFromLogs sample_env s =
     (s\<lparr>stats := \<lparr>totalEvents = 17, eventsToday = 5, lastBatchSize = 12\<rparr>,
        recentActivity :=
          [\<lparr>timestamp = Some ''2024-01-02T03:00:00.000Z'', type = ''Event Processing'',
             status = ''SUCCESS'', details = ''Processed 5 events''\<rparr>,
           \<lparr>timestamp = Some ''2024-01-01T23:59:59.000Z'', type = ''Event Processing'',
             status = ''SUCCESS'', details = ''Processed 12 events''\<rparr>]\<rparr>, [])"
proof -
  have c5: "match_processed ''2024-01-02 03:00:00 - INFO - Successfully processed 5 events'' = Some ''5''"
    by (simp add: match_processed_at_def is_digit_def)
  have c12: "match_processed ''2024-01-01 23:59:59 - INFO - Successfully processed 12 events'' = Some ''12''"
    by (simp add: match_processed_at_def is_digit_def)
  have t1: "match_timestamp ''2024-01-02 03:00:00 - INFO - Successfully processed 5 events'' = Some ''2024-01-02 03:00:00''"
    by (simp add: match_timestamp_def timestamp_pattern_def is_digit_def)
  have t2: "match_timestamp ''2024-01-01 23:59:59 - INFO - Successfully processed 12 events'' = Some ''2024-01-01 23:59:59''"
    by (simp add: match_timestamp_def timestamp_pattern_def is_digit_def)
  have d: "logDir sample_env = Some [''boxchronicle_2024-01-02.log'' \<mapsto> Content sample_log]"
    and p: "parseDate sample_env = sample_parseDate"
    by (simp_all add: sample_env_def sample_clock_def)
  show ?thesis
    by (simp add: updateStatsFromLogs_def d p today_sample_env logFile_def event_lines_sample_log
        sum_events_def event_count_def c5 c12 t1 t2 parseInt_def digit_val_def slice_last10_def
        activity_of_def truthy_def sample_parseDate_def del: match_processed.simps)
qed

lemma event_lines_stale_log:
  "event_lines stale_log = [''2024-13-45 99:99:99 - INFO - Successfully processed 9 events'']"
  by (simp add: event_lines_def stale_log_def)

lemma today_stale_env: "today stale_env = ''2024-01-02''"
  by (simp add: today_def stale_env_def sample_env_def sample_clock_def)

lemma update_stale:
  "updateStatsFromLogs stale_env s =
     (s\<lparr>stats := \<lparr>totalEvents = 9, eventsToday = 0, lastBatchSize = 9\<rparr>\<rparr>,
      [ConsoleError ''Error updating stats:''])"
proof -
  have c9: "match_processed ''2024-13-45 99:99:99 - INFO - Successfully processed 9 events'' = Some ''9''"
    by (simp add: match_processed_at_def is_digit_def)
  have t: "match_timestamp ''2024-13-45 99:99:99 - INFO - Successfully processed 9 events'' =
             Some ''2024-13-45 99:99:99''"
    by (simp add: match_timestamp_def timestamp_pattern_def is_digit_def)
  have d: "logDir stale_env = Some [''boxchronicle_2024-01-02.log'' \<mapsto> Content stale_log]"
    and p: "parseDate stale_env = sample_parseDate"
    by (simp_all add: stale_env_def sample_env_def)
  show ?thesis
    by (simp add: updateStatsFromLogs_def d p today_stale_env logFile_def event_lines_stale_log
        sum_events_def event_count_def c9 t parseInt_def digit_val_def slice_last10_def
        activity_of_def sample_parseDate_def del: match_processed.simps)
qed

lemma todays_log_samples:
  "todays_log sample_env = Some sample_log" "todays_log stale_env = Some stale_log"
proof -
  have "logDir sample_env = Some [''boxchronicle_2024-01-02.log'' \<mapsto> Content sample_log]"
    by (simp add: sample_env_def)
  then show "todays_log sample_env = Some sample_log"
    by (simp add: todays_log_def today_sample_env logFile_def)
  have "logDir stale_env = Some [''boxchronicle_2024-01-02.log'' \<mapsto> Content stale_log]"
    by (simp add: stale_env_def)
  then show "todays_log stale_env = Some stale_log"
    by (simp add: todays_log_def today_stale_env logFile_def)
qed

subsection \<open>The patterns\<close>

text \<open>
  The string operations against their descriptions: \<open>includes\<close> finds a contiguous
  occurrence, and the match of \<open>/processed (\d+) events/\<close> returns a non-empty run of
  digits that stands in the line between ``processed '' and `` events'', and finds a
  match whenever the line has such an occurrence; the match of the timestamp returns
  the first 19 characters when they have the shape of a timestamp.
\<close>

lemma includes_str_iff: "includes_str s pat \<longleftrightarrow> (\<exists>pre post. s = pre @ pat @ post)"
proof (induction s)
  case Nil
  then show ?case by auto
next
  case (Cons c cs)
  show ?case
  proof
    assume "includes_str (c # cs) pat"
    then consider "prefix pat (c # cs)" | "includes_str cs pat" by auto
    then show "\<exists>pre post. c # cs = pre @ pat @ post"
    proof cases
      case 1
      then obtain post where "c # cs = pat @ post" by (auto simp: prefix_def)
      then have "c # cs = [] @ pat @ post" by simp
      then show ?thesis by blast
    next
      case 2
      with Cons.IH obtain pre post where "cs = pre @ pat @ post" by blast
      then have "c # cs = (c # pre) @ pat @ post" by simp
      then show ?thesis by blast
    qed
  next
    assume "\<exists>pre post. c # cs = pre @ pat @ post"
    then obtain pre post where e: "c # cs = pre @ pat @ post" by blast
    show "includes_str (c # cs) pat"
    proof (cases pre)
      case Nil
      with e have "prefix pat (c # cs)" by (simp add: prefix_def)
      then show ?thesis by simp
    next
      case (Cons d pre')
      with e have "cs = pre' @ pat @ post" by simp
      with Cons.IH have "includes_str cs pat" by blast
      then show ?thesis by simp
    qed
  qed
qed

lemma match_processed_at_sound:
  assumes "match_processed_at s = Some ds"
  shows "ds \<noteq> [] \<and> list_all is_digit ds \<and> (\<exists>post. s = ''processed '' @ ds @ '' events'' @ post)"
proof -
  from assms have p: "prefix ''processed '' s"
    by (simp add: match_processed_at_def split: if_splits)
  then obtain r where s: "s = ''processed '' @ r" by (auto simp: prefix_def)
  then have r: "drop 10 s = r" by simp
  from assms p r have ds: "ds = takeWhile is_digit r" and ne: "ds \<noteq> []"
    and q: "prefix '' events'' (dropWhile is_digit r)"
    by (auto simp: match_processed_at_def Let_def split: if_splits)
  from q obtain post where "dropWhile is_digit r = '' events'' @ post"
    by (auto simp: prefix_def)
  with ds have "r = ds @ '' events'' @ post"
    using takeWhile_dropWhile_id [of is_digit r] by simp
  moreover from ds have "list_all is_digit ds"
    by (auto simp: list_all_iff dest: set_takeWhileD)
  ultimately show ?thesis using s ne by auto
qed

lemma match_processed_at_complete:
  assumes "ds \<noteq> []" and "list_all is_digit ds"
  shows "match_processed_at (''processed '' @ ds @ '' events'' @ post) = Some ds"
proof -
  have nd: "\<not> is_digit (CHR '' '')" by (simp add: is_digit_def)
  from assms(2) have a: "\<And>x. x \<in> set ds \<Longrightarrow> is_digit x" by (simp add: list_all_iff)
  have t: "takeWhile is_digit (ds @ '' events'' @ post) = ds"
    using a nd by (simp add: takeWhile_append2)
  have d: "dropWhile is_digit (ds @ '' events'' @ post) = '' events'' @ post"
    using a nd by (simp add: dropWhile_append2)
  have "drop 10 (''processed '' @ ds @ '' events'' @ post) = ds @ '' events'' @ post"
    by simp
  then show ?thesis
    using assms(1) t d by (simp add: match_processed_at_def)
qed

lemma match_processed_sound:
  "match_processed l = Some ds \<Longrightarrow>
   ds \<noteq> [] \<and> list_all is_digit ds \<and> (\<exists>pre post. l = pre @ ''processed '' @ ds @ '' events'' @ post)"
proof (induction l)
  case Nil
  then show ?case by simp
next
  case (Cons c cs)
  show ?case
  proof (cases "match_processed_at (c # cs)")
    case (Some d)
    with Cons.prems have "d = ds" by simp
    with Some match_processed_at_sound [of "c # cs" ds]
    obtain post where "ds \<noteq> []" "list_all is_digit ds" "c # cs = [] @ ''processed '' @ ds @ '' events'' @ post"
      by auto
    then show ?thesis by blast
  next
    case None
    with Cons.prems have "match_processed cs = Some ds" by simp
    with Cons.IH obtain pre post where "ds \<noteq> []" "list_all is_digit ds"
      "cs = pre @ ''processed '' @ ds @ '' events'' @ post" by blast
    then have "ds \<noteq> []" "list_all is_digit ds"
      "c # cs = (c # pre) @ ''processed '' @ ds @ '' events'' @ post" by simp_all
    then show ?thesis by blast
  qed
qed

lemma match_processed_complete:
  assumes "ds \<noteq> []" and "list_all is_digit ds"
  shows "match_processed (pre @ ''processed '' @ ds @ '' events'' @ post) \<noteq> None"
proof (induction pre)
  case Nil
  from match_processed_at_complete [OF assms, of post]
  show ?case by simp
next
  case (Cons c pre)
  then show ?case by (simp split: option.split)
qed

lemma match_timestamp_iff:
  "match_timestamp l = Some t \<longleftrightarrow> t = take 19 l \<and> is_timestamp t"
proof -
  have shape: "length t = 19 \<and>
      list_all (\<lambda>(p, c). if p = CHR ''d'' then is_digit c else c = p) (zip timestamp_pattern t)
      \<longleftrightarrow> is_timestamp t" for t
  proof (cases "length t = 19")
    case False
    then show ?thesis
      by (auto simp: is_timestamp_def split: list.splits)
  next
    case True
    then obtain y1 y2 y3 y4 h1 m1 m2 h2 d1 d2 sp hh1 hh2 c1 mm1 mm2 c2 s1 s2 where
      t: "t = [y1, y2, y3, y4, h1, m1, m2, h2, d1, d2, sp, hh1, hh2, c1, mm1, mm2, c2, s1, s2]"
      by (auto simp: length_Suc_conv eval_nat_numeral)
    show ?thesis
      unfolding t by (auto simp: is_timestamp_def timestamp_pattern_def)
  qed
  show ?thesis
    using shape [of "take 19 l"]
    by (auto simp: match_timestamp_def Let_def)
qed

subsection \<open>The statistics\<close>

lemma foldl_add_sum_list:
  "foldl (\<lambda>sum line. sum + f line) a ls = a + sum_list (map f ls)" for a :: nat
  by (induction ls arbitrary: a) simp_all

lemma sum_events_sum_list: "sum_events ls = sum_list (map event_count ls)"
  by (simp add: sum_events_def foldl_add_sum_list)

lemma sum_list_event_count:
  "sum_list (map event_count ls) = sum_list (map parseInt (List.map_filter match_processed ls))"
  by (induction ls) (simp_all add: List.map_filter_simps event_count_def split: option.split)

lemma includes_str_nonempty: "includes_str l (p # ps) \<Longrightarrow> l \<noteq> []"
  by (cases l) simp_all

lemma event_line_nonempty: "l \<in> set (event_lines c) \<Longrightarrow> l \<noteq> []"
  by (auto simp: event_lines_def dest: includes_str_nonempty)

lemma update_stats:
  assumes "logDir e = Some dir" and "dir (logFile (today e)) = Some (Content c)"
  shows "stats (fst (updateStatsFromLogs e s)) =
           (stats s)\<lparr> totalEvents := sum_events (event_lines c),
                      eventsToday := sum_events (filter (\<lambda>line. includes_str line (today e)) (event_lines c)),
                      lastBatchSize := (if event_lines c = [] then lastBatchSize (stats s)
                                        else event_count (last (event_lines c))) \<rparr>"
proof -
  have "event_lines c \<noteq> [] \<Longrightarrow> last (event_lines c) \<noteq> []"
    using event_line_nonempty [of "last (event_lines c)" c] by simp
  then show ?thesis
    using assms by (auto simp: updateStatsFromLogs_def Let_def split: option.split)
qed

text \<open>
  Claim C8. When today's log file is read, \<open>totalEvents\<close> is the sum of the counts N
  of the event lines (the lines containing ``Successfully processed'') that match
  ``processed N events'', \<open>eventsToday\<close> is that sum over the event lines that contain
  today's date, and \<open>lastBatchSize\<close> is the count of the last event line, 0 when that
  line has no count; without an event line \<open>lastBatchSize\<close> keeps its value. The sum
  is within the range in which JavaScript numbers are exact.
\<close>

theorem stats_are_sums_over_event_lines:
  assumes "logDir e = Some dir"
    and "dir (logFile (today e)) = Some (Content c)"
    and "sum_events (event_lines c) \<le> 2 ^ 53"
  shows "totalEvents (stats (fst (updateStatsFromLogs e s))) =
           sum_list (map parseInt (List.map_filter match_processed (event_lines c))) \<and>
         eventsToday (stats (fst (updateStatsFromLogs e s))) =
           sum_list (map parseInt (List.map_filter match_processed
             (filter (\<lambda>line. includes_str line (today e)) (event_lines c)))) \<and>
         lastBatchSize (stats (fst (updateStatsFromLogs e s))) =
           (if event_lines c = [] then lastBatchSize (stats s)
            else (case match_processed (last (event_lines c)) of
                    Some ds \<Rightarrow> parseInt ds
                  | None \<Rightarrow> 0))"
  by (simp add: update_stats [OF assms(1,2)] sum_events_sum_list sum_list_event_count
      event_count_def)

theorem stats_are_sums_over_event_lines_witness:
  "logDir sample_env = Some [''boxchronicle_2024-01-02.log'' \<mapsto> Content sample_log] \<and>
   [''boxchronicle_2024-01-02.log'' \<mapsto> Content sample_log] (logFile (today sample_env)) =
     Some (Content sample_log) \<and>
   sum_events (event_lines sample_log) \<le> 2 ^ 53 \<and>
   totalEvents (stats (fst (updateStatsFromLogs sample_env initial_state))) = 17 \<and>
   eventsToday (stats (fst (updateStatsFromLogs sample_env initial_state))) = 5 \<and>
   lastBatchSize (stats (fst (updateStatsFromLogs sample_env initial_state))) = 12"
proof -
  have c5: "match_processed ''2024-01-02 03:00:00 - INFO - Successfully processed 5 events'' = Some ''5''"
    by (simp add: match_processed_at_def is_digit_def)
  have c12: "match_processed ''2024-01-01 23:59:59 - INFO - Successfully processed 12 events'' = Some ''12''"
    by (simp add: match_processed_at_def is_digit_def)
  have d: "logDir sample_env = Some [''boxchronicle_2024-01-02.log'' \<mapsto> Content sample_log]"
    by (simp add: sample_env_def)
  have f: "[''boxchronicle_2024-01-02.log'' \<mapsto> Content sample_log] (logFile (today sample_env)) =
     Some (Content sample_log)"
    by (simp add: today_sample_env logFile_def)
  have b: "sum_events (event_lines sample_log) \<le> 2 ^ 53"
    by (simp add: event_lines_sample_log sum_events_def event_count_def c5 c12 parseInt_def
        digit_val_def del: match_processed.simps)
  show ?thesis
    using stats_are_sums_over_event_lines [OF d f b, of initial_state] d f b
    by (simp add: event_lines_sample_log today_sample_env List.map_filter_simps c5 c12
        parseInt_def digit_val_def del: match_processed.simps)
qed

subsection \<open>The activity list\<close>

lemma todays_log_Some:
  "todays_log e = Some c \<longleftrightarrow>
     (\<exists>dir. logDir e = Some dir \<and> dir (logFile (today e)) = Some (Content c))"
  by (auto simp: todays_log_def split: option.splits log_file.splits)

lemma update_without_log: "todays_log e = None \<Longrightarrow> fst (updateStatsFromLogs e s) = s"
  by (auto simp: todays_log_def updateStatsFromLogs_def split: option.splits log_file.splits)

lemma map_throwing_activity_None:
  "map_throwing (activity_of e) ls = None \<longleftrightarrow>
     \<not> list_all (\<lambda>l. case match_timestamp l of
                         None \<Rightarrow> True
                       | Some t \<Rightarrow> parseDate e t \<noteq> None) ls"
  by (induction ls) (auto simp: activity_of_def Let_def split: option.splits)

lemma filter_truthy_activities:
  "map_throwing (activity_of e) ls = Some acts \<Longrightarrow>
   filter (\<lambda>a. truthy (timestamp a)) acts =
     concat (map (\<lambda>l. case match_timestamp l of
                           None \<Rightarrow> []
                         | Some t \<Rightarrow>
                             (case parseDate e t of
                                None \<Rightarrow> []
                              | Some d \<Rightarrow>
                                  if d = [] then []
                                  else [\<lparr> timestamp = Some d,
                                          type = ''Event Processing'',
                                          status = ''SUCCESS'',
                                          details = ''Processed '' @
                                            (case match_processed l of
                                               None \<Rightarrow> ''undefined''
                                             | Some ds \<Rightarrow> ds) @ '' events'' \<rparr>]))
              ls)"
proof (induction ls arbitrary: acts)
  case Nil
  then show ?case by simp
next
  case (Cons l ls)
  from Cons.prems obtain a as where a: "activity_of e l = Some a"
    and as: "map_throwing (activity_of e) ls = Some as" and acts: "acts = a # as"
    by (auto split: option.splits)
  from Cons.IH [OF as] a show ?case
    unfolding acts
    by (auto simp: activity_of_def truthy_def Let_def split: option.splits)
qed

lemma update_activity:
  assumes "todays_log e = Some c"
  shows "recentActivity (fst (updateStatsFromLogs e s)) =
           (if dates_valid e c then log_entries e c else recentActivity s)"
proof -
  from assms obtain dir where d: "logDir e = Some dir"
    "dir (logFile (today e)) = Some (Content c)"
    by (auto simp: todays_log_Some)
  show ?thesis
  proof (cases "map_throwing (activity_of e) (slice_last10 (event_lines c))")
    case None
    then have "\<not> dates_valid e c"
      by (simp add: map_throwing_activity_None dates_valid_def)
    with None d show ?thesis
      by (simp add: updateStatsFromLogs_def Let_def)
  next
    case (Some acts)
    then have v: "dates_valid e c"
      using map_throwing_activity_None [of e "slice_last10 (event_lines c)"]
      by (simp add: dates_valid_def)
    from filter_truthy_activities [OF Some]
    have "filter (\<lambda>a. truthy (timestamp a)) acts = log_entries e c"
      by (simp add: log_entries_def)
    with Some d v show ?thesis
      by (simp add: updateStatsFromLogs_def Let_def)
  qed
qed

lemma length_slice_last10: "length (slice_last10 xs) \<le> 10"
  by (simp add: slice_last10_def)

lemma length_concat_singletons:
  "(\<And>x. length (f x) \<le> 1) \<Longrightarrow> length (concat (map f xs)) \<le> length xs"
proof (induction xs)
  case Nil
  then show ?case by simp
next
  case (Cons x xs)
  from Cons.prems have "length (f x) \<le> 1" .
  moreover from Cons have "length (concat (map f xs)) \<le> length xs" by simp
  ultimately show ?case by simp
qed

lemma log_entries_bound: "length (log_entries e c) \<le> 10"
proof -
  have "length (log_entries e c) \<le> length (slice_last10 (event_lines c))"
    unfolding log_entries_def
    by (rule length_concat_singletons) (simp split: option.split)
  with length_slice_last10 [of "event_lines c"] show ?thesis by simp
qed

lemma log_entries_ok: "list_all activity_ok (log_entries e c)"
proof -
  have "list_all activity_ok
          (case match_timestamp l of
             None \<Rightarrow> []
           | Some t \<Rightarrow>
               (case parseDate e t of
                  None \<Rightarrow> []
                | Some d \<Rightarrow>
                    if d = [] then []
                    else [\<lparr> timestamp = Some d, type = ''Event Processing'',
                            status = ''SUCCESS'', details = x l \<rparr>]))" for l x
    by (simp add: activity_ok_def split: option.split)
  then show ?thesis
    by (simp add: log_entries_def list_all_iff)
qed

lemma update_activity_inv:
  assumes "activity_inv s"
  shows "activity_inv (fst (updateStatsFromLogs e s))"
proof (cases "todays_log e")
  case None
  with assms show ?thesis by (simp add: update_without_log)
next
  case (Some c)
  from update_activity [OF Some, of s] assms log_entries_bound [of e c] log_entries_ok [of e c]
  show ?thesis by (simp add: activity_inv_def)
qed

lemma handle_activity_inv:
  assumes "activity_inv s" and "handle e ev s = Some (r, s', fx)"
  shows "activity_inv s'"
proof (cases ev)
  case GetStatus
  with assms(2) have "s' = fst (updateStatsFromLogs e s)"
    by (auto simp: get_status_def split_beta)
  with assms(1) show ?thesis by (simp add: update_activity_inv)
next
  case PostRun
  with assms show ?thesis
    by (auto simp: post_run_def activity_inv_def Let_def split: if_splits)
next
  case (Stdout d)
  with assms show ?thesis by (auto simp: on_stdout_def)
next
  case (Stderr d)
  with assms show ?thesis by (auto simp: on_stderr_def)
next
  case (Close c)
  with assms show ?thesis by (auto simp: on_close_def activity_inv_def Let_def)
next
  case (ChildError err)
  with assms show ?thesis by simp
qed

lemma serve_activity_inv:
  "activity_inv s0 \<Longrightarrow> snd (serve tr s0) = Up s \<Longrightarrow> activity_inv s"
proof (induction tr arbitrary: s0)
  case Nil
  then show ?case by simp
next
  case (Cons x tr)
  obtain e ev where x: "x = (e, ev)" by (cases x)
  show ?case
  proof (cases "handle e ev s0")
    case None
    with Cons.prems x show ?thesis by simp
  next
    case (Some h)
    obtain r s' fx where h: "h = (r, s', fx)" by (cases h)
    from Cons.prems(1) Some h have "activity_inv s'"
      by (auto intro: handle_activity_inv)
    moreover from Cons.prems(2) x Some h have "snd (serve tr s') = Up s"
      by (simp add: split_beta)
    ultimately show ?thesis by (rule Cons.IH)
  qed
qed

lemma activity_inv_initial: "activity_inv initial_state"
  by (simp add: activity_inv_def initial_state_def)

text \<open>
  Claim C9, as stated, fails. The server polls the sample log and holds its two
  entries; then today's log is the one whose only event line carries an invalid
  date. The next call of \<open>updateStatsFromLogs\<close> reads this log, sets the statistics
  from it, and keeps the two entries, none of which is drawn from the log read.
\<close>

theorem stale_activity_counterexample:
  "snd (serve [(sample_env, GetStatus)] initial_state) =
     Up (initial_state
          \<lparr>stats := \<lparr>totalEvents = 17, eventsToday = 5, lastBatchSize = 12\<rparr>,
            recentActivity :=
              [\<lparr>timestamp = Some ''2024-01-02T03:00:00.000Z'', type = ''Event Processing'',
                 status = ''SUCCESS'', details = ''Processed 5 events''\<rparr>,
               \<lparr>timestamp = Some ''2024-01-01T23:59:59.000Z'', type = ''Event Processing'',
                 status = ''SUCCESS'', details = ''Processed 12 events''\<rparr>]\<rparr>) \<and>
   todays_log stale_env = Some stale_log \<and>
   event_lines stale_log =
     [''2024-13-45 99:99:99 - INFO - Successfully processed 9 events''] \<and>
   updateStatsFromLogs stale_env
     (initial_state
        \<lparr>stats := \<lparr>totalEvents = 17, eventsToday = 5, lastBatchSize = 12\<rparr>,
          recentActivity :=
            [\<lparr>timestamp = Some ''2024-01-02T03:00:00.000Z'', type = ''Event Processing'',
               status = ''SUCCESS'', details = ''Processed 5 events''\<rparr>,
             \<lparr>timestamp = Some ''2024-01-01T23:59:59.000Z'', type = ''Event Processing'',
               status = ''SUCCESS'', details = ''Processed 12 events''\<rparr>]\<rparr>) =
     (initial_state
        \<lparr>stats := \<lparr>totalEvents = 9, eventsToday = 0, lastBatchSize = 9\<rparr>,
          recentActivity :=
            [\<lparr>timestamp = Some ''2024-01-02T03:00:00.000Z'', type = ''Event Processing'',
               status = ''SUCCESS'', details = ''Processed 5 events''\<rparr>,
             \<lparr>timestamp = Some ''2024-01-01T23:59:59.000Z'', type = ''Event Processing'',
               status = ''SUCCESS'', details = ''Processed 12 events''\<rparr>]\<rparr>,
      [ConsoleError ''Error updating stats:''])"
  by (simp add: get_status_def update_sample update_stale todays_log_samples
      event_lines_stale_log initial_state_def)

text \<open>
  Claim C9, amended. In every state the server reaches from its initial state, after
  a call of \<open>updateStatsFromLogs\<close> the activity list has at most 10 entries, each with
  status SUCCESS, type ``Event Processing'' and a timestamp. When the call reads
  today's log and every timestamp at the start of its last 10 event lines is a valid
  date, the list is drawn from the log: in order, one entry for each of these lines
  that begins with a timestamp. Otherwise, when no log is read or one of these
  timestamps is an invalid date, the list keeps its previous entries.
\<close>

theorem recent_activity_bounded_and_successful:
  assumes "snd (serve tr initial_state) = Up s"
  shows "length (recentActivity (fst (updateStatsFromLogs e s))) \<le> 10 \<and>
         list_all activity_ok (recentActivity (fst (updateStatsFromLogs e s))) \<and>
         recentActivity (fst (updateStatsFromLogs e s)) =
           (case todays_log e of
              None \<Rightarrow> recentActivity s
            | Some c \<Rightarrow> if dates_valid e c then log_entries e c else recentActivity s)"
proof -
  from activity_inv_initial assms have "activity_inv s"
    by (rule serve_activity_inv)
  then have "activity_inv (fst (updateStatsFromLogs e s))"
    by (rule update_activity_inv)
  moreover have "recentActivity (fst (updateStatsFromLogs e s)) =
           (case todays_log e of
              None \<Rightarrow> recentActivity s
            | Some c \<Rightarrow> if dates_valid e c then log_entries e c else recentActivity s)"
  proof (cases "todays_log e")
    case None
    then show ?thesis by (simp add: update_without_log)
  next
    case (Some c)
    then show ?thesis by (simp add: update_activity)
  qed
  ultimately show ?thesis by (simp add: activity_inv_def)
qed

theorem recent_activity_bounded_and_successful_witness:
  "snd (serve [] initial_state) = Up initial_state \<and>
   todays_log sample_env = Some sample_log \<and>
   dates_valid sample_env sample_log \<and>
   recentActivity (fst (updateStatsFromLogs sample_env initial_state)) =
     log_entries sample_env sample_log \<and>
   log_entries sample_env sample_log =
     [\<lparr>timestamp = Some ''2024-01-02T03:00:00.000Z'', type = ''Event Processing'',
        status = ''SUCCESS'', details = ''Processed 5 events''\<rparr>,
      \<lparr>timestamp = Some ''2024-01-01T23:59:59.000Z'', type = ''Event Processing'',
        status = ''SUCCESS'', details = ''Processed 12 events''\<rparr>]"
proof -
  have u: "snd (serve [] initial_state) = Up initial_state" by simp
  have t1: "match_timestamp ''2024-01-02 03:00:00 - INFO - Successfully processed 5 events'' = Some ''2024-01-02 03:00:00''"
    by (simp add: match_timestamp_def timestamp_pattern_def is_digit_def)
  have t2: "match_timestamp ''2024-01-01 23:59:59 - INFO - Successfully processed 12 events'' = Some ''2024-01-01 23:59:59''"
    by (simp add: match_timestamp_def timestamp_pattern_def is_digit_def)
  have p: "parseDate sample_env = sample_parseDate" by (simp add: sample_env_def)
  have v: "dates_valid sample_env sample_log"
    by (simp add: dates_valid_def event_lines_sample_log slice_last10_def t1 t2 p
        sample_parseDate_def)
  from recent_activity_bounded_and_successful [OF u, of sample_env] v
  have r: "recentActivity (fst (updateStatsFromLogs sample_env initial_state)) =
     log_entries sample_env sample_log"
    by (simp add: todays_log_samples)
  then have "log_entries sample_env sample_log =
     [\<lparr>timestamp = Some ''2024-01-02T03:00:00.000Z'', type = ''Event Processing'',
        status = ''SUCCESS'', details = ''Processed 5 events''\<rparr>,
      \<lparr>timestamp = Some ''2024-01-01T23:59:59.000Z'', type = ''Event Processing'',
        status = ''SUCCESS'', details = ''Processed 12 events''\<rparr>]"
    by (simp add: update_sample)
  with u v r show ?thesis by (simp add: todays_log_samples)
qed

subsection \<open>The status query\<close>

text \<open>
  Claim C5, as stated, fails: the status query is not read-only. On the initial state
  with the sample log it sets the statistics to 17, 5 and 12 and puts two entries on
  the activity list.
\<close>

theorem status_query_updates_stats_counterexample:
  "stats (fst (snd (get_status sample_env initial_state))) =
     \<lparr>totalEvents = 17, eventsToday = 5, lastBatchSize = 12\<rparr> \<and>
   stats initial_state = \<lparr>totalEvents = 0, eventsToday = 0, lastBatchSize = 0\<rparr> \<and>
   length (recentActivity (fst (snd (get_status sample_env initial_state)))) = 2 \<and>
   recentActivity initial_state = [] \<and>
   fst (snd (get_status sample_env initial_state)) \<noteq> initial_state"
  by (simp add: get_status_def update_sample initial_state_def)

lemma update_frame:
  "lastRun (fst (updateStatsFromLogs e s)) = lastRun s \<and>
   nextRun (fst (updateStatsFromLogs e s)) = nextRun s \<and>
   isRunning (fst (updateStatsFromLogs e s)) = isRunning s"
  by (simp add: updateStatsFromLogs_def Let_def split: option.split log_file.split)

lemma stats_record:
  "st\<lparr>totalEvents := a, eventsToday := b, lastBatchSize := c\<rparr> =
     \<lparr>totalEvents = a, eventsToday = b, lastBatchSize = c\<rparr>" for st :: stats
  by (cases st) simp

lemma update_stats_read:
  assumes "todays_log e = Some c"
  shows "stats (fst (updateStatsFromLogs e s)) =
           \<lparr>totalEvents = sum_events (event_lines c),
             eventsToday =
               sum_events (filter (\<lambda>line. includes_str line (today e)) (event_lines c)),
             lastBatchSize =
               (if event_lines c = [] then lastBatchSize (stats s)
                else event_count (last (event_lines c)))\<rparr>"
proof -
  from assms obtain dir where "logDir e = Some dir"
    "dir (logFile (today e)) = Some (Content c)"
    by (auto simp: todays_log_Some)
  then show ?thesis
    by (simp add: update_stats stats_record)
qed

lemma sum_events_filter_le: "sum_events (filter P ls) \<le> sum_events ls"
  by (simp add: sum_events_sum_list sum_list_filter_le_nat)

lemma event_count_last_le:
  "ls \<noteq> [] \<Longrightarrow> event_count (last ls) \<le> sum_events ls"
proof -
  assume "ls \<noteq> []"
  then have "event_count (last ls) \<in> set (map event_count ls)" by simp
  then show ?thesis
    unfolding sum_events_sum_list by (simp add: member_le_sum_list)
qed

text \<open>
  Claim C5, amended. The status query is one computation that does not wait for the
  worker. It leaves \<open>lastRun\<close>, \<open>nextRun\<close> and \<open>isRunning\<close> as they are and reports them,
  with the statistics and the activity list of the state it leaves. It is not
  read-only in these two. When no log is read (no \<open>logs\<close> directory, no file for
  today, or a file that cannot be read) the whole state stays as it is. When today's
  log is read, the statistics are set from it: \<open>totalEvents\<close> and \<open>eventsToday\<close> to the
  sums of the counts, \<open>lastBatchSize\<close> to the count of the last event line if there is
  one; and the activity list is replaced by the entries drawn from the log, or kept
  when one of its last 10 event lines begins with an invalid date. The numbers stay
  within the range in which JavaScript numbers are exact.
\<close>

theorem status_query_frame:
  assumes "stats_exact (stats s)" and "counts_exact e"
  shows "fst (get_status e s) =
           (200,
            JObj [(''status'', JStr (if isRunning s then ''ACTIVE'' else ''IDLE'')),
                  (''lastRun'', json_opt (lastRun s)),
                  (''nextRun'', json_opt (nextRun s)),
                  (''isRunning'', JBool (isRunning s)),
                  (''stats'', json_stats (stats (fst (snd (get_status e s))))),
                  (''recentActivity'',
                   JArr (map json_activity (recentActivity (fst (snd (get_status e s))))))]) \<and>
         lastRun (fst (snd (get_status e s))) = lastRun s \<and>
         nextRun (fst (snd (get_status e s))) = nextRun s \<and>
         isRunning (fst (snd (get_status e s))) = isRunning s \<and>
         stats_exact (stats (fst (snd (get_status e s)))) \<and>
         (case todays_log e of
            None \<Rightarrow> fst (snd (get_status e s)) = s
          | Some c \<Rightarrow>
              stats (fst (snd (get_status e s))) =
                \<lparr>totalEvents =
                   sum_list (map parseInt (List.map_filter match_processed (event_lines c))),
                 eventsToday =
                   sum_list (map parseInt (List.map_filter match_processed
                     (filter (\<lambda>line. includes_str line (today e)) (event_lines c)))),
                 lastBatchSize =
                   (if event_lines c = [] then lastBatchSize (stats s)
                    else (case match_processed (last (event_lines c)) of
                            Some ds \<Rightarrow> parseInt ds
                          | None \<Rightarrow> 0))\<rparr> \<and>
              recentActivity (fst (snd (get_status e s))) =
                (if dates_valid e c then log_entries e c else recentActivity s))"
proof -
  have g: "fst (snd (get_status e s)) = fst (updateStatsFromLogs e s)"
    by (simp add: get_status_def split_beta)
  have r: "fst (get_status e s) =
           (200,
            JObj [(''status'', JStr (if isRunning s then ''ACTIVE'' else ''IDLE'')),
                  (''lastRun'', json_opt (lastRun s)),
                  (''nextRun'', json_opt (nextRun s)),
                  (''isRunning'', JBool (isRunning s)),
                  (''stats'', json_stats (stats (fst (snd (get_status e s))))),
                  (''recentActivity'',
                   JArr (map json_activity (recentActivity (fst (snd (get_status e s))))))])"
    using update_frame [of e s] by (simp add: get_status_def split_beta)
  show ?thesis
  proof (cases "todays_log e")
    case None
    then have "fst (updateStatsFromLogs e s) = s" by (rule update_without_log)
    with r g None assms(1) show ?thesis by simp
  next
    case (Some c)
    from assms(2) Some have b: "sum_events (event_lines c) \<le> 2 ^ 53"
      by (simp add: counts_exact_def)
    have t: "sum_events (filter (\<lambda>line. includes_str line (today e)) (event_lines c)) \<le> 2 ^ 53"
      using sum_events_filter_le [of "\<lambda>line. includes_str line (today e)" "event_lines c"] b
      by simp
    have l: "event_lines c \<noteq> [] \<Longrightarrow> event_count (last (event_lines c)) \<le> 2 ^ 53"
      using event_count_last_le [of "event_lines c"] b by simp
    have st: "stats (fst (updateStatsFromLogs e s)) =
           \<lparr>totalEvents = sum_events (event_lines c),
             eventsToday =
               sum_events (filter (\<lambda>line. includes_str line (today e)) (event_lines c)),
             lastBatchSize =
               (if event_lines c = [] then lastBatchSize (stats s)
                else event_count (last (event_lines c)))\<rparr>"
      using Some by (rule update_stats_read)
    have ex: "stats_exact (stats (fst (updateStatsFromLogs e s)))"
      using assms(1) b t l by (simp add: st stats_exact_def)
    have st': "stats (fst (updateStatsFromLogs e s)) =
                \<lparr>totalEvents =
                   sum_list (map parseInt (List.map_filter match_processed (event_lines c))),
                 eventsToday =
                   sum_list (map parseInt (List.map_filter match_processed
                     (filter (\<lambda>line. includes_str line (today e)) (event_lines c)))),
                 lastBatchSize =
                   (if event_lines c = [] then lastBatchSize (stats s)
                    else (case match_processed (last (event_lines c)) of
                            Some ds \<Rightarrow> parseInt ds
                          | None \<Rightarrow> 0))\<rparr>"
      by (simp add: st sum_events_sum_list sum_list_event_count event_count_def)
    have ra: "recentActivity (fst (updateStatsFromLogs e s)) =
                (if dates_valid e c then log_entries e c else recentActivity s)"
      using Some by (rule update_activity)
    from update_frame [of e s] ex st' ra r show ?thesis
      by (simp only: g Some option.case)
  qed
qed

theorem status_query_frame_witness:
  "stats_exact (stats initial_state) \<and> counts_exact sample_env \<and>
   todays_log sample_env = Some sample_log \<and>
   stats (fst (snd (get_status sample_env initial_state))) =
     \<lparr>totalEvents = 17, eventsToday = 5, lastBatchSize = 12\<rparr> \<and>
   isRunning (fst (snd (get_status sample_env initial_state))) = isRunning initial_state"
proof -
  have c5: "match_processed ''2024-01-02 03:00:00 - INFO - Successfully processed 5 events'' = Some ''5''"
    by (simp add: match_processed_at_def is_digit_def)
  have c12: "match_processed ''2024-01-01 23:59:59 - INFO - Successfully processed 12 events'' = Some ''12''"
    by (simp add: match_processed_at_def is_digit_def)
  have a: "stats_exact (stats initial_state)"
    by (simp add: stats_exact_def initial_state_def)
  have b: "counts_exact sample_env"
    by (simp add: counts_exact_def todays_log_samples event_lines_sample_log sum_events_def
        event_count_def c5 c12 parseInt_def digit_val_def del: match_processed.simps)
  from status_query_frame [OF a b]
  have "isRunning (fst (snd (get_status sample_env initial_state))) = isRunning initial_state"
    by simp
  with a b show ?thesis
    by (simp add: todays_log_samples get_status_def update_sample initial_state_def)
qed

subsection \<open>The run trigger\<close>

text \<open>
  Claim C4, as stated, fails: an accepted run request is answered at once with the
  acknowledgement ``Integration started'', while the cycle is still running (the flag
  is set in the state the handler leaves); the response holds no count, no error and
  no cursor.
\<close>

theorem run_returns_acknowledgement_counterexample:
  "post_run sample_env initial_state =
     ((200, JObj [(''success'', JBool True), (''message'', JStr ''Integration started'')]),
      initial_state\<lparr>isRunning := True, lastRun := Some ''2024-01-02T03:04:05.000Z''\<rparr>,
      [Spawn ''python'' [''main.py'']]) \<and>
   isRunning (fst (snd (post_run sample_env initial_state)))"
  by (simp add: post_run_def sample_env_def sample_clock_def initial_state_def message_def)

text \<open>
  Claim C4, amended. A run request that is not rejected sets \<open>lastRun\<close> and answers
  with an acknowledgement: HTTP 200 ``Integration started'', the flag set and the
  worker spawned; or, when \<open>spawn\<close> throws, HTTP 500 ``Failed to start integration'',
  the flag cleared again.
\<close>

theorem run_accepted_acknowledges:
  assumes "\<not> isRunning s"
  shows "post_run e s =
           (if spawnThrows e
            then ((500, JObj [(''success'', JBool False),
                              (''message'', JStr ''Failed to start integration'')]),
                  s\<lparr>lastRun := Some (toISOString e (now e))\<rparr>,
                  [ConsoleError ''Error starting integration:''])
            else ((200, JObj [(''success'', JBool True),
                              (''message'', JStr ''Integration started'')]),
                  s\<lparr>isRunning := True, lastRun := Some (toISOString e (now e))\<rparr>,
                  [Spawn ''python'' [''main.py'']]))"
  using assms by (simp add: post_run_def message_def)

theorem run_accepted_acknowledges_witness:
  "\<not> isRunning initial_state \<and>
   fst (post_run sample_env initial_state) =
     (200, JObj [(''success'', JBool True), (''message'', JStr ''Integration started'')]) \<and>
   fst (post_run (sample_env\<lparr>spawnThrows := True\<rparr>) initial_state) =
     (500, JObj [(''success'', JBool False), (''message'', JStr ''Failed to start integration'')])"
  using run_accepted_acknowledges [of initial_state sample_env]
    run_accepted_acknowledges [of initial_state "sample_env\<lparr>spawnThrows := True\<rparr>"]
  by (simp add: initial_state_def sample_env_def sample_clock_def)

subsection \<open>The running flag\<close>

lemma flag_cleared_by_catch_and_close:
  assumes "\<not> isRunning s"
  shows "(if spawnThrows e then \<not> isRunning (fst (snd (post_run e s)))
          else isRunning (fst (snd (post_run e s))) \<and>
               snd (snd (post_run e s)) = [Spawn ''python'' [''main.py'']]) \<and>
         \<not> isRunning (fst (on_close e' code s'))"
  using assms by (simp add: post_run_def on_close_def)

text \<open>
  Claim C6 at a start fault that \<open>spawn\<close> does not throw. The server is idle and
  \<open>python\<close> is not found. The run request sets the flag, spawns, and is answered with
  ``Integration started''; then the worker's \<open>error\<close> event arrives, for which the
  server has no listener: no handler clears the flag, and the server goes down with
  the flag set. The \<open>catch\<close> and the \<open>close\<close> listener, which clear the flag on the
  other paths, are not reached.
\<close>

theorem start_fault_leaves_flag_set:
  "serve start_fault_run initial_state =
     ([(200, JObj [(''success'', JBool True), (''message'', JStr ''Integration started'')])],
      Down (initial_state\<lparr>isRunning := True, lastRun := Some ''2024-01-02T03:04:05.000Z''\<rparr>)) \<and>
   isRunning (initial_state\<lparr>isRunning := True, lastRun := Some ''2024-01-02T03:04:05.000Z''\<rparr>)"
  by (simp add: start_fault_run_def post_run_def sample_env_def sample_clock_def
      initial_state_def message_def)

subsection \<open>Errors of the worker\<close>

lemma stderr_and_exit_code_unobserved: "serve (without_errors tr) s = serve tr s"
  by (induction tr arbitrary: s rule: without_errors.induct)
    (simp_all add: on_stderr_def on_close_def split_beta)

text \<open>
  Claim C7 at a cycle whose worker fails. The worker writes an error to stderr and
  exits with code 1, and today's log holds an error line. The caller sees the
  acknowledgement and a status with two SUCCESS entries and no error, exactly the
  responses of a cycle whose worker exits with code 0: the error went to the console
  only.
\<close>

theorem worker_error_swallowed:
  "fst (serve failed_run initial_state) =
     [(200, JObj [(''success'', JBool True), (''message'', JStr ''Integration started'')]),
      (200, JObj [(''status'', JStr ''IDLE''),
                  (''lastRun'', JStr ''2024-01-02T03:04:05.000Z''),
                  (''nextRun'', JStr ''2024-01-02T03:09:05.000Z''),
                  (''isRunning'', JBool False),
                  (''stats'', JObj [(''totalEvents'', JNum 17), (''eventsToday'', JNum 5),
                                    (''lastBatchSize'', JNum 12)]),
                  (''recentActivity'',
                   JArr [JObj [(''timestamp'', JStr ''2024-01-02T03:00:00.000Z''),
                               (''type'', JStr ''Event Processing''),
                               (''status'', JStr ''SUCCESS''),
                               (''details'', JStr ''Processed 5 events'')],
                         JObj [(''timestamp'', JStr ''2024-01-01T23:59:59.000Z''),
                               (''type'', JStr ''Event Processing''),
                               (''status'', JStr ''SUCCESS''),
                               (''details'', JStr ''Processed 12 events'')]])])] \<and>
   fst (serve failed_run initial_state) = fst (serve clean_run initial_state)"
proof -
  have t: "toISOString sample_env (now sample_env) = ''2024-01-02T03:04:05.000Z''"
    "toISOString sample_env (now sample_env + 300000) = ''2024-01-02T03:09:05.000Z''"
    and sp: "\<not> spawnThrows sample_env"
    by (simp_all add: sample_env_def sample_clock_def)
  show ?thesis
    by (simp add: failed_run_def clean_run_def get_status_def post_run_def on_close_def
        on_stderr_def update_sample initial_state_def message_def json_opt_def json_stats_def
        json_activity_def t sp)
qed

section \<open>Properties of the forwarding cycle\<close>

lemma record_batch_delivered:
  "contiguous p \<Longrightarrow> b \<noteq> [] \<Longrightarrow>
   contiguous (record_batch i b (Some Delivered) p) \<and>
   confirmed (record_batch i b (Some Delivered) p) = batch_end b"
  by (simp add: record_batch_def)

lemma record_batch_failed:
  "out \<noteq> Some Delivered \<Longrightarrow>
   \<not> contiguous (record_batch i b out p) \<and> confirmed (record_batch i b out p) = confirmed p"
  by (auto simp: record_batch_def split: option.split delivery_outcome.split)

lemma record_batch_blocked:
  "\<not> contiguous p \<Longrightarrow>
   \<not> contiguous (record_batch i b out p) \<and> confirmed (record_batch i b out p) = confirmed p"
  by (auto simp: record_batch_def split: option.split delivery_outcome.split)

lemma deliver_batches_blocked:
  "\<not> contiguous p \<Longrightarrow> confirmed (deliver_batches cfg env i bs p) = confirmed p"
proof (induction bs arbitrary: i p)
  case Nil
  then show ?case by simp
next
  case (Cons b bs)
  from Cons.prems have "\<not> contiguous (record_batch i b (deliver cfg env b) p)"
    and "confirmed (record_batch i b (deliver cfg env b) p) = confirmed p"
    by (simp_all add: record_batch_blocked)
  with Cons.IH show ?case by simp
qed

lemma deliver_batches_append:
  "deliver_batches cfg env i (xs @ ys) p =
     deliver_batches cfg env (i + length xs) ys (deliver_batches cfg env i xs p)"
  by (induction xs arbitrary: i p) simp_all

lemma deliver_batches_all_delivered:
  assumes "contiguous p"
    and "\<forall>b \<in> set bs. deliver cfg env b = Some Delivered \<and> b \<noteq> []"
  shows "contiguous (deliver_batches cfg env i bs p) \<and>
         confirmed (deliver_batches cfg env i bs p) =
           (if bs = [] then confirmed p else batch_end (last bs))"
  using assms
proof (induction bs arbitrary: i p)
  case Nil
  then show ?case by simp
next
  case (Cons b bs)
  let ?p = "record_batch i b (Some Delivered) p"
  from Cons.prems have d: "deliver cfg env b = Some Delivered" and ne: "b \<noteq> []"
    by simp_all
  from Cons.prems(1) ne have c: "contiguous ?p" and e: "confirmed ?p = batch_end b"
    by (simp_all add: record_batch_delivered)
  from Cons.prems(2) have rest: "\<forall>x \<in> set bs. deliver cfg env x = Some Delivered \<and> x \<noteq> []"
    by simp
  from Cons.IH [OF c rest, of "Suc i"] d e show ?case by simp
qed

lemma confirmed_after_failure:
  assumes "contiguous p"
    and "\<forall>b \<in> set (pre @ [b1]). deliver cfg env b = Some Delivered \<and> b \<noteq> []"
    and "deliver cfg env b2 \<noteq> Some Delivered"
  shows "confirmed (deliver_batches cfg env i (pre @ b1 # b2 # rest) p) = batch_end b1"
proof -
  let ?q = "deliver_batches cfg env i (pre @ [b1]) p"
  have q: "contiguous ?q \<and> confirmed ?q = batch_end b1"
    using deliver_batches_all_delivered [OF assms(1,2), of i] by simp
  let ?r = "record_batch (i + length (pre @ [b1])) b2 (deliver cfg env b2) ?q"
  have r: "\<not> contiguous ?r \<and> confirmed ?r = confirmed ?q"
    using assms(3) by (rule record_batch_failed)
  have "deliver_batches cfg env i (pre @ b1 # b2 # rest) p =
          deliver_batches cfg env (i + length (pre @ [b1])) (b2 # rest) ?q"
    using deliver_batches_append [of cfg env i "pre @ [b1]" "b2 # rest" p] by simp
  also have "\<dots> = deliver_batches cfg env (Suc (i + length (pre @ [b1]))) rest ?r"
    by simp
  finally show ?thesis
    using deliver_batches_blocked [of ?r cfg env _ rest] r q by simp
qed

lemma chunk_nonempty: "[] \<notin> set (chunk n xs)"
proof (induction n xs rule: chunk.induct)
  case (1 n xs)
  show ?case
  proof (cases "xs = []")
    case True
    then show ?thesis by (subst chunk.simps) simp
  next
    case False
    with "1" have "[] \<notin> set (chunk n (drop (max 1 n) xs))" by simp
    moreover from False have "take (max 1 n) xs \<noteq> []" by (cases xs) simp_all
    ultimately show ?thesis
      using False by (subst chunk.simps) auto
  qed
qed

lemma concat_chunk: "concat (chunk n xs) = xs"
proof (induction n xs rule: chunk.induct)
  case (1 n xs)
  show ?case
  proof (cases "xs = []")
    case True
    then show ?thesis by (subst chunk.simps) simp
  next
    case False
    with "1" have "concat (chunk n (drop (max 1 n) xs)) = drop (max 1 n) xs" by simp
    then show ?thesis
      using False by (subst chunk.simps) simp
  qed
qed

lemma cycle_batches_nonempty:
  "cycle_batches cfg env after = Some bs \<Longrightarrow> [] \<notin> set bs"
proof -
  assume a: "cycle_batches cfg env after = Some bs"
  then obtain pages where bs: "bs = concat (map (chunk (batch_limit cfg)) pages)"
    by (auto simp: cycle_batches_def split: option.splits)
  show ?thesis
    unfolding bs using chunk_nonempty by auto
qed

lemma cycle_batches_events:
  "cycle_batches cfg env after = Some bs \<Longrightarrow>
   \<exists>pages. fetch_pages (source env) (fetch_limit cfg) (max_pages cfg) after = Some pages \<and>
           concat bs = concat pages"
proof -
  have "concat (concat (map (chunk n) pages)) = concat pages" for n and pages :: "'a list list"
    by (induction pages) (simp_all add: concat_chunk)
  then show "cycle_batches cfg env after = Some bs \<Longrightarrow> ?thesis"
    by (auto simp: cycle_batches_def split: option.splits)
qed

lemma fetched_after_cursor:
  assumes "source_contract src"
  shows "fetch_pages src lim n after = Some pages \<Longrightarrow>
         \<forall>ev \<in> set (concat pages). after < Some (event_cursor ev)"
proof (induction n arbitrary: after pages)
  case 0
  then show ?case by simp
next
  case (Suc n)
  show ?case
  proof (cases "src after lim")
    case FatalFetchError
    with Suc.prems show ?thesis by simp
  next
    case (Page evs "next" hasMore)
    from assms Page have here: "\<forall>ev \<in> set evs. after < Some (event_cursor ev)"
      and nxt: "after \<le> Some next"
    proof -
      from assms have "case src after lim of
           FatalFetchError \<Rightarrow> True
         | Page evs next hasMore \<Rightarrow>
             sorted_wrt (<) (map event_cursor evs) \<and>
             (\<forall>ev \<in> set evs. after < Some (event_cursor ev) \<and> event_cursor ev \<le> next) \<and>
             after \<le> Some next"
        unfolding source_contract_def by blast
      with Page show "\<forall>ev \<in> set evs. after < Some (event_cursor ev)" and "after \<le> Some next"
        by simp_all
    qed
    show ?thesis
    proof (cases hasMore)
      case False
      with Suc.prems Page here show ?thesis by auto
    next
      case True
      with Suc.prems Page obtain ps where
        ps: "fetch_pages src lim n (Some next) = Some ps" and pages: "pages = evs # ps"
        by (auto split: option.splits)
      from Suc.IH [OF ps] have "\<forall>ev \<in> set (concat ps). Some next < Some (event_cursor ev)" .
      with nxt have "\<forall>ev \<in> set (concat ps). after < Some (event_cursor ev)"
        using le_less_trans by blast
      with here pages show ?thesis by auto
    qed
  qed
qed

lemma confirmed_cases:
  "confirmed (deliver_batches cfg env i bs p) = confirmed p \<or>
   (\<exists>pre b rest. bs = pre @ b # rest \<and> b \<noteq> [] \<and>
      (\<forall>x \<in> set (pre @ [b]). deliver cfg env x = Some Delivered) \<and>
      confirmed (deliver_batches cfg env i bs p) = batch_end b)"
proof (induction bs arbitrary: i p)
  case Nil
  then show ?case by simp
next
  case (Cons b bs)
  let ?p = "record_batch i b (deliver cfg env b) p"
  show ?case
  proof (cases "contiguous p \<and> deliver cfg env b = Some Delivered")
    case False
    then have "\<not> contiguous ?p \<and> confirmed ?p = confirmed p"
      using record_batch_failed [of "deliver cfg env b" i b p] record_batch_blocked [of p i b "deliver cfg env b"]
      by blast
    then show ?thesis
      using deliver_batches_blocked [of ?p cfg env "Suc i" bs] by simp
  next
    case True
    note first = True
    from Cons.IH [of "Suc i" ?p]
    show ?thesis
    proof
      assume same: "confirmed (deliver_batches cfg env (Suc i) bs ?p) = confirmed ?p"
      show ?thesis
      proof (cases "b = []")
        case True
        with first same show ?thesis by (simp add: record_batch_def)
      next
        case False
        with first have "confirmed ?p = batch_end b"
          by (simp add: record_batch_delivered)
        with same first False have
          "b # bs = [] @ b # bs \<and> b \<noteq> [] \<and>
           (\<forall>x \<in> set ([] @ [b]). deliver cfg env x = Some Delivered) \<and>
           confirmed (deliver_batches cfg env i (b # bs) p) = batch_end b"
          by simp
        then show ?thesis by blast
      qed
    next
      assume "\<exists>pre c rest. bs = pre @ c # rest \<and> c \<noteq> [] \<and>
        (\<forall>x \<in> set (pre @ [c]). deliver cfg env x = Some Delivered) \<and>
        confirmed (deliver_batches cfg env (Suc i) bs ?p) = batch_end c"
      then obtain pre c rest where
        bs: "bs = pre @ c # rest" and c: "c \<noteq> []"
        and d: "\<forall>x \<in> set (pre @ [c]). deliver cfg env x = Some Delivered"
        and e: "confirmed (deliver_batches cfg env (Suc i) bs ?p) = batch_end c"
        by blast
      from bs c d e first have
        "b # bs = (b # pre) @ c # rest \<and> c \<noteq> [] \<and>
         (\<forall>x \<in> set ((b # pre) @ [c]). deliver cfg env x = Some Delivered) \<and>
         confirmed (deliver_batches cfg env i (b # bs) p) = batch_end c"
        by simp
      then show ?thesis by blast
    qed
  qed
qed

lemma runCycle_position:
  "snd (runCycle cfg env stored) =
     (if load_fails env \<or> save_fails env then stored
      else (case cycle_batches cfg env stored of
              None \<Rightarrow> stored
            | Some bs \<Rightarrow>
                (case confirmed (deliver_batches cfg env 0 bs initial_progress) of
                   None \<Rightarrow> stored
                 | Some c \<Rightarrow> Some c)))"
  by (simp add: runCycle_def initial_progress_def Let_def split: option.split)

lemma runCycle_advance:
  assumes "snd (runCycle cfg env stored) \<noteq> stored"
  shows "\<not> load_fails env \<and> \<not> save_fails env \<and>
         (\<exists>pre b rest. cycle_batches cfg env stored = Some (pre @ b # rest) \<and> b \<noteq> [] \<and>
            (\<forall>x \<in> set (pre @ [b]). deliver cfg env x = Some Delivered) \<and>
            snd (runCycle cfg env stored) = Some (event_cursor (last b)))"
proof -
  from assms have ok: "\<not> load_fails env \<and> \<not> save_fails env"
    by (auto simp: runCycle_position)
  with assms obtain bs c where bs: "cycle_batches cfg env stored = Some bs"
    and c: "confirmed (deliver_batches cfg env 0 bs initial_progress) = Some c"
    and r: "snd (runCycle cfg env stored) = Some c"
    by (auto simp: runCycle_position split: option.splits)
  from confirmed_cases [of cfg env 0 bs initial_progress] c
  obtain pre b rest where f: "bs = pre @ b # rest" "b \<noteq> []"
    "\<forall>x \<in> set (pre @ [b]). deliver cfg env x = Some Delivered"
    and e: "Some c = batch_end b"
    by (auto simp: initial_progress_def)
  from e f(2) have "c = event_cursor (last b)"
    by (cases b) (simp_all add: batch_end_def)
  with bs r f have "cycle_batches cfg env stored = Some (pre @ b # rest) \<and> b \<noteq> [] \<and>
            (\<forall>x \<in> set (pre @ [b]). deliver cfg env x = Some Delivered) \<and>
            snd (runCycle cfg env stored) = Some (event_cursor (last b))"
    by simp
  with ok show ?thesis by blast
qed

lemma runCycle_monotone:
  assumes "source_contract (source env)"
  shows "stored \<le> snd (runCycle cfg env stored)"
proof (cases "snd (runCycle cfg env stored) = stored")
  case True
  then show ?thesis by simp
next
  case False
  from runCycle_advance [OF False] obtain pre b rest where
    bs: "cycle_batches cfg env stored = Some (pre @ b # rest)" and b: "b \<noteq> []"
    and r: "snd (runCycle cfg env stored) = Some (event_cursor (last b))"
    by blast
  from cycle_batches_events [OF bs] obtain pages where
    p: "fetch_pages (source env) (fetch_limit cfg) (max_pages cfg) stored = Some pages"
    and c: "concat (pre @ b # rest) = concat pages"
    by blast
  from b have "last b \<in> set (concat (pre @ b # rest))" by simp
  with c have "last b \<in> set (concat pages)" by simp
  with fetched_after_cursor [OF assms p] have "stored < Some (event_cursor (last b))"
    by blast
  with r show ?thesis by simp
qed

lemma run_cycles_sorted:
  assumes "\<forall>env \<in> set envs. source_contract (source env)"
  shows "sorted (stored # run_cycles cfg envs stored)"
  using assms
proof (induction envs arbitrary: stored)
  case Nil
  then show ?case by simp
next
  case (Cons env envs)
  let ?s = "snd (runCycle cfg env stored)"
  from Cons.prems have "stored \<le> ?s" by (simp add: runCycle_monotone)
  moreover from Cons have "sorted (?s # run_cycles cfg envs ?s)" by simp
  ultimately show ?case
    by (auto simp: Let_def)
qed

lemma fetched_sorted:
  assumes "source_contract src"
  shows "fetch_pages src lim n after = Some pages \<Longrightarrow>
         sorted_wrt (<) (map event_cursor (concat pages))"
proof (induction n arbitrary: after pages)
  case 0
  then show ?case by simp
next
  case (Suc n)
  show ?case
  proof (cases "src after lim")
    case FatalFetchError
    with Suc.prems show ?thesis by simp
  next
    case (Page evs "next" hasMore)
    have here: "sorted_wrt (<) (map event_cursor evs)"
      and below: "\<forall>ev \<in> set evs. event_cursor ev \<le> next"
    proof -
      from assms have "case src after lim of
           FatalFetchError \<Rightarrow> True
         | Page evs next hasMore \<Rightarrow>
             sorted_wrt (<) (map event_cursor evs) \<and>
             (\<forall>ev \<in> set evs. after < Some (event_cursor ev) \<and> event_cursor ev \<le> next) \<and>
             after \<le> Some next"
        unfolding source_contract_def by blast
      with Page show "sorted_wrt (<) (map event_cursor evs)"
        and "\<forall>ev \<in> set evs. event_cursor ev \<le> next"
        by simp_all
    qed
    show ?thesis
    proof (cases hasMore)
      case False
      with Suc.prems Page here show ?thesis by auto
    next
      case True
      with Suc.prems Page obtain ps where
        ps: "fetch_pages src lim n (Some next) = Some ps" and pages: "pages = evs # ps"
        by (auto split: option.splits)
      from Suc.IH [OF ps] have later: "sorted_wrt (<) (map event_cursor (concat ps))" .
      from fetched_after_cursor [OF assms ps]
      have "\<forall>ev \<in> set (concat ps). next < event_cursor ev" by simp
      with below have "\<forall>x \<in> set evs. \<forall>y \<in> set (concat ps). event_cursor x < event_cursor y"
        by fastforce
      with here later show ?thesis
        unfolding pages by (simp add: sorted_wrt_append)
    qed
  qed
qed

lemma cycle_batches_sorted:
  assumes "source_contract (source env)"
    and "cycle_batches cfg env stored = Some bs"
  shows "sorted_wrt (<) (map event_cursor (concat bs))"
proof -
  from cycle_batches_events [OF assms(2)] obtain pages where
    "fetch_pages (source env) (fetch_limit cfg) (max_pages cfg) stored = Some pages"
    "concat bs = concat pages"
    by blast
  with fetched_sorted [OF assms(1)] show ?thesis by simp
qed

lemma runCycle_report_cursor:
  "\<not> save_fails env \<Longrightarrow> \<not> load_fails env \<Longrightarrow>
   final_cursor (fst (runCycle cfg env stored)) = snd (runCycle cfg env stored)"
  by (simp add: runCycle_def Let_def split: option.split)

subsection \<open>The sample cycle, evaluated\<close>

lemma sample_event_cursor: "event_cursor (sample_event n) = n"
  by (simp add: sample_event_def)

lemma sample_batches:
  "cycle_batches sample_config sample_collaborators None =
     Some [[sample_event 10, sample_event 20], [sample_event 30, sample_event 40]]"
  by (simp add: cycle_batches_def sample_config_def sample_collaborators_def chunk.simps
      numeral_3_eq_3)

lemma sample_batches_later:
  "cycle_batches sample_config sample_collaborators (Some 20) = Some []"
  by (simp add: cycle_batches_def sample_config_def sample_collaborators_def chunk.simps
      numeral_3_eq_3)

lemma sample_deliver_first:
  "deliver sample_config sample_collaborators [sample_event 10, sample_event 20] = Some Delivered"
  by (simp add: deliver_def sample_config_def sample_collaborators_def sample_event_def
      numeral_2_eq_2)

lemma sample_deliver_second:
  "deliver sample_config sample_collaborators [sample_event 30, sample_event 40] =
     Some (Rejected ''malformed payload'')"
  by (simp add: deliver_def sample_config_def sample_collaborators_def sample_event_def
      numeral_2_eq_2)

lemma sample_source_contract: "source_contract (source sample_collaborators)"
  by (auto simp: source_contract_def sample_collaborators_def sample_event_cursor
      split: option.split)

lemma sample_flags:
  "\<not> load_fails sample_collaborators" "\<not> save_fails sample_collaborators"
  by (simp_all add: sample_collaborators_def)

lemma sample_runCycle:
  "runCycle sample_config sample_collaborators None =
     (\<lparr> events_fetched = 4, events_delivered = 2, events_failed = 2, final_cursor = Some 20,
        batch_errors = [(1, RejectedDelivery ''malformed payload'')], cycle_status = Done \<rparr>,
      Some 20)"
  by (simp add: runCycle_def sample_batches sample_deliver_first sample_deliver_second
      record_batch_def batch_end_def sample_event_cursor Let_def sample_flags
      initial_progress_def)

lemma sample_runCycle_later:
  "snd (runCycle sample_config sample_collaborators (Some 20)) = Some 20"
  by (simp add: runCycle_position sample_batches_later initial_progress_def sample_flags)

subsection \<open>No skip past a failed batch\<close>

text \<open>
  Claim C2. In a cycle that loads its position from a source that keeps its contract
  and saves its position in the end, in which every batch up to and including B1 is
  delivered and the next batch B2 fails delivery, the position stored after the
  cycle, which is also the final cursor of the report, is the end cursor of B1; it is
  below the end cursor of B2 and of every later batch.
\<close>

theorem no_skip_past_failed_batch:
  assumes "source_contract (source env)"
    and "\<not> load_fails env" and "\<not> save_fails env"
    and "cycle_batches cfg env stored = Some (pre @ b1 # b2 # rest)"
    and "\<forall>b \<in> set (pre @ [b1]). deliver cfg env b = Some Delivered"
    and "deliver cfg env b2 \<noteq> Some Delivered"
  shows "snd (runCycle cfg env stored) = batch_end b1 \<and>
         batch_end b1 = Some (event_cursor (last b1)) \<and>
         final_cursor (fst (runCycle cfg env stored)) = batch_end b1 \<and>
         (\<forall>b \<in> set (b2 # rest). snd (runCycle cfg env stored) < batch_end b)"
proof -
  from cycle_batches_nonempty [OF assms(4)] have ne: "\<forall>b \<in> set (pre @ b1 # b2 # rest). b \<noteq> []"
    by auto
  with assms(5) have d: "\<forall>b \<in> set (pre @ [b1]). deliver cfg env b = Some Delivered \<and> b \<noteq> []"
    by simp
  have "contiguous initial_progress" by (simp add: initial_progress_def)
  from confirmed_after_failure [OF this d assms(6), of 0 rest]
  have c: "confirmed (deliver_batches cfg env 0 (pre @ b1 # b2 # rest) initial_progress) =
          batch_end b1" .
  from ne have b1: "b1 \<noteq> []" by simp
  then have e: "batch_end b1 = Some (event_cursor (last b1))"
    by (cases b1) (simp_all add: batch_end_def)
  from c e assms(2,3,4) have s: "snd (runCycle cfg env stored) = batch_end b1"
    by (simp add: runCycle_position)
  have f: "final_cursor (fst (runCycle cfg env stored)) = batch_end b1"
    using runCycle_report_cursor [OF assms(3,2)] s by simp
  have "sorted_wrt (<) (map event_cursor (concat (pre @ b1 # b2 # rest)))"
    using assms(1,4) by (rule cycle_batches_sorted)
  then have "sorted_wrt (<) (map event_cursor (concat pre @ b1) @
                             map event_cursor (concat (b2 # rest)))"
    by simp
  then have "\<forall>x \<in> set (map event_cursor (concat pre @ b1)).
               \<forall>y \<in> set (map event_cursor (concat (b2 # rest))). x < y"
    unfolding sorted_wrt_append by blast
  then have "\<forall>x \<in> set (concat pre @ b1). \<forall>y \<in> set (concat (b2 # rest)).
               event_cursor x < event_cursor y"
    unfolding set_map by blast
  moreover have "set b1 \<subseteq> set (concat pre @ b1)" by simp
  ultimately have "\<forall>x \<in> set b1. \<forall>y \<in> set (concat (b2 # rest)). event_cursor x < event_cursor y"
    by blast
  with b1 have later: "\<forall>y \<in> set (concat (b2 # rest)). event_cursor (last b1) < event_cursor y"
    by simp
  have "\<forall>b \<in> set (b2 # rest). snd (runCycle cfg env stored) < batch_end b"
  proof
    fix b assume b: "b \<in> set (b2 # rest)"
    with ne have n: "b \<noteq> []" by auto
    then have "last b \<in> set b" by simp
    with b have "last b \<in> set (concat (b2 # rest))"
      unfolding set_concat by blast
    with later have "event_cursor (last b1) < event_cursor (last b)" by blast
    moreover from n have "batch_end b = Some (event_cursor (last b))"
      by (cases b) (simp_all add: batch_end_def)
    ultimately show "snd (runCycle cfg env stored) < batch_end b"
      using s e by simp
  qed
  with s e f show ?thesis by blast
qed

theorem no_skip_past_failed_batch_witness:
  "source_contract (source sample_collaborators) \<and>
   \<not> load_fails sample_collaborators \<and> \<not> save_fails sample_collaborators \<and>
   cycle_batches sample_config sample_collaborators None =
     Some ([] @ [sample_event 10, sample_event 20] # [sample_event 30, sample_event 40] # []) \<and>
   deliver sample_config sample_collaborators [sample_event 10, sample_event 20] = Some Delivered \<and>
   deliver sample_config sample_collaborators [sample_event 30, sample_event 40] \<noteq> Some Delivered \<and>
   snd (runCycle sample_config sample_collaborators None) = Some 20 \<and>
   snd (runCycle sample_config sample_collaborators None) <
     batch_end [sample_event 30, sample_event 40]"
proof -
  note l = sample_flags(1) and s = sample_flags(2)
  have b: "cycle_batches sample_config sample_collaborators None =
     Some ([] @ [sample_event 10, sample_event 20] # [sample_event 30, sample_event 40] # [])"
    by (simp add: sample_batches)
  have d1: "\<forall>b \<in> set ([] @ [[sample_event 10, sample_event 20]]).
              deliver sample_config sample_collaborators b = Some Delivered"
    by (simp add: sample_deliver_first)
  have d2: "deliver sample_config sample_collaborators [sample_event 30, sample_event 40] \<noteq> Some Delivered"
    by (simp add: sample_deliver_second)
  note t = no_skip_past_failed_batch [OF sample_source_contract l s b d1 d2]
  from t have "snd (runCycle sample_config sample_collaborators None) =
                 Some (event_cursor (last [sample_event 10, sample_event 20]))"
    by simp
  then have r1: "snd (runCycle sample_config sample_collaborators None) = Some 20"
    by (simp add: sample_event_cursor)
  from t have "\<forall>b \<in> set ([sample_event 30, sample_event 40] # []).
                 snd (runCycle sample_config sample_collaborators None) < batch_end b"
    by blast
  then have r2: "snd (runCycle sample_config sample_collaborators None) <
          batch_end [sample_event 30, sample_event 40]"
    by simp
  from l s b d2 sample_source_contract sample_deliver_first r1 r2 show ?thesis
    by (intro conjI)
qed

subsection \<open>Monotonicity\<close>

text \<open>
  Claim C3. With sources that keep their contract, the positions stored before and
  after the cycles of any sequence of cycles never decrease; and a cycle changes the
  stored position only to the end cursor of a batch that was delivered, as was every
  batch before it.
\<close>

theorem persisted_cursor_monotone:
  assumes "\<forall>env \<in> set envs. source_contract (source env)"
  shows "sorted (stored # run_cycles cfg envs stored) \<and>
         (\<forall>env \<in> set envs. \<forall>p. snd (runCycle cfg env p) \<noteq> p \<longrightarrow>
            (\<exists>pre b rest. cycle_batches cfg env p = Some (pre @ b # rest) \<and>
               (\<forall>x \<in> set (pre @ [b]). deliver cfg env x = Some Delivered) \<and>
               snd (runCycle cfg env p) = Some (event_cursor (last b))))"
proof
  show "sorted (stored # run_cycles cfg envs stored)"
    using assms by (rule run_cycles_sorted)
  show "\<forall>env \<in> set envs. \<forall>p. snd (runCycle cfg env p) \<noteq> p \<longrightarrow>
            (\<exists>pre b rest. cycle_batches cfg env p = Some (pre @ b # rest) \<and>
               (\<forall>x \<in> set (pre @ [b]). deliver cfg env x = Some Delivered) \<and>
               snd (runCycle cfg env p) = Some (event_cursor (last b)))"
    using runCycle_advance by blast
qed

theorem persisted_cursor_monotone_witness:
  "source_contract (source sample_collaborators) \<and>
   run_cycles sample_config [sample_collaborators, sample_collaborators] None = [Some 20, Some 20] \<and>
   sorted (None # run_cycles sample_config [sample_collaborators, sample_collaborators] None) \<and>
   snd (runCycle sample_config sample_collaborators None) \<noteq> None \<and>
   (\<exists>pre b rest. cycle_batches sample_config sample_collaborators None = Some (pre @ b # rest) \<and>
      (\<forall>x \<in> set (pre @ [b]). deliver sample_config sample_collaborators x = Some Delivered) \<and>
      snd (runCycle sample_config sample_collaborators None) = Some (event_cursor (last b)))"
proof -
  have c: "\<forall>env \<in> set [sample_collaborators, sample_collaborators]. source_contract (source env)"
    by (simp add: sample_source_contract)
  have r: "run_cycles sample_config [sample_collaborators, sample_collaborators] None = [Some 20, Some 20]"
    by (simp add: sample_runCycle sample_runCycle_later Let_def)
  have n: "snd (runCycle sample_config sample_collaborators None) \<noteq> None"
    by (simp add: sample_runCycle)
  from persisted_cursor_monotone [OF c, of None sample_config] n
  show ?thesis
    using sample_source_contract r by simp
qed

end
